theory Spec2Isabelle
  imports Main "HOL-Library.Word"
begin

unbundle bit_operations_syntax

section \<open>Task deletion: os/kernel/task/task_delete.c\<close>

subsection \<open>Data model\<close>

text \<open>
  A task identifier (\<open>pid_t\<close>) is an integer; a TCB pointer is an address into the
  TCB store. The fields of \<open>struct tcb_s\<close> that \<open>task_delete\<close> reads or writes are
  \<open>pid\<close>, \<open>flags\<close> and \<open>cpcount\<close>. The width of the \<open>flags\<close> field is fixed by a
  kernel header, so it is the type parameter \<open>'w\<close>.
\<close>

type_synonym pid_t = int
type_synonym tcb_ptr = nat

text \<open>
  The result of \<open>task_terminate\<close> is a C \<open>int\<close>, 32 bits wide on the targets of this
  kernel: a word, read signed. Its negation wraps around as the hardware does at
  \<open>INT_MIN\<close>, where C leaves the result undefined. The value stored in errno is the signed
  value of such a word.
\<close>

type_synonym c_int = "32 word"

definition INT_MIN :: c_int where
  "INT_MIN = - (2 ^ 31)"

record (overloaded) ('w::len) tcb_s =
  pid :: pid_t
  flags :: "'w word"
  cpcount :: int

text \<open>
  The calls that \<open>task_delete\<close> makes into the rest of the kernel, in the order made.
\<close>

datatype call =
    SchedLock
  | SchedUnlock
  | NotifyCancellation tcb_ptr
  | TaskTerminate pid_t bool
  | ExitCall int

text \<open>
  The kernel state: the TCB store (\<open>heap\<close>), the head of the ready-to-run list
  (the running task), the table behind \<open>sched_gettcb\<close>, the caller's errno, and the
  log of calls (\<open>calls\<close>), which only the wrappers below extend.
\<close>

record (overloaded) ('w::len) kernel =
  heap :: "tcb_ptr \<Rightarrow> 'w tcb_s"
  g_readytorun_head :: tcb_ptr
  pidhash :: "pid_t \<rightharpoonup> tcb_ptr"
  k_errno :: int
  calls :: "call list"

text \<open>
  Build options and header constants that the function uses and that are declared
  in kernel headers and the build configuration: they are parameters. The flag masks are taken at the width
  of the \<open>flags\<close> field.
\<close>

record (overloaded) ('w::len) build =
  CONFIG_CANCELLATION_POINTS :: bool
  CONFIG_DEBUG :: bool
  TCB_FLAG_TTYPE_MASK :: "'w word"
  TCB_FLAG_TTYPE_PTHREAD :: "'w word"
  TCB_FLAG_NONCANCELABLE :: "'w word"
  TCB_FLAG_CANCEL_DEFERRED :: "'w word"
  TCB_FLAG_CANCEL_PENDING :: "'w word"
  ESRCH :: int

text \<open>
  The two collaborators whose effect on the kernel state is not fixed here:
  \<open>notify_cancellation(tcb)\<close> and \<open>task_terminate(pid, nonblocking)\<close>.
\<close>

record (overloaded) ('w::len) collab =
  notify_cancellation :: "tcb_ptr \<Rightarrow> 'w kernel \<Rightarrow> 'w kernel"
  task_terminate :: "pid_t \<Rightarrow> bool \<Rightarrow> 'w kernel \<Rightarrow> c_int \<times> 'w kernel"

text \<open>How a call of \<open>task_delete\<close> ends: it returns a value, the task exits inside
  \<open>exit()\<close>, or the \<open>DEBUGASSERT\<close> stops the system.\<close>

datatype outcome = Returned int | Exited int | Asserted

text \<open>Modelled from the spec: the status values \<open>OK\<close>, \<open>ERROR\<close> (-1) and
  \<open>EXIT_SUCCESS\<close>, which are defined in system headers.\<close>

definition OK :: int where
  "OK = 0"

definition ERROR :: int where
  "ERROR = - 1"

definition EXIT_SUCCESS :: int where
  "EXIT_SUCCESS = 0"

subsection \<open>Collaborators\<close>

text \<open>Modelled from the spec: \<open>sched_gettcb\<close> is the registry lookup, without side
  effects, that answers \<open>NULL\<close> (here \<open>None\<close>) for an identifier that is unknown.\<close>

definition sched_gettcb :: "'w::len kernel \<Rightarrow> pid_t \<Rightarrow> tcb_ptr option" where
  "sched_gettcb k p = pidhash k p"

text \<open>Modelled from the spec: \<open>set_errno\<close> (defined elsewhere in the kernel) stores the
  error code that the caller finds in errno.\<close>

definition set_errno :: "int \<Rightarrow> 'w::len kernel \<Rightarrow> 'w kernel" where
  "set_errno e k = k\<lparr>k_errno := e\<rparr>"

text \<open>Modelled from the spec: \<open>sched_lock\<close> and \<open>sched_unlock\<close> (defined elsewhere in
  the kernel) acquire and release the counting scheduler lock. They touch no TCB field that
  \<open>task_delete\<close> reads; the model records each call in the log, from which the nesting
  depth is read back by \<open>lock_discipline\<close>.\<close>

definition sched_lock :: "'w::len kernel \<Rightarrow> 'w kernel" where
  "sched_lock k = k\<lparr>calls := calls k @ [SchedLock]\<rparr>"

definition sched_unlock :: "'w::len kernel \<Rightarrow> 'w kernel" where
  "sched_unlock k = k\<lparr>calls := calls k @ [SchedUnlock]\<rparr>"

text \<open>A call of a collaborator applies the parameter to the state and records the call.
  The log of the state before the call is kept, so a collaborator cannot change
  the log.\<close>

definition call_notify :: "'w::len collab \<Rightarrow> tcb_ptr \<Rightarrow> 'w kernel \<Rightarrow> 'w kernel" where
  "call_notify ext dtcb k =
     (notify_cancellation ext dtcb k)\<lparr>calls := calls k @ [NotifyCancellation dtcb]\<rparr>"

definition call_terminate ::
  "'w::len collab \<Rightarrow> pid_t \<Rightarrow> bool \<Rightarrow> 'w kernel \<Rightarrow> c_int \<times> 'w kernel" where
  "call_terminate ext p nonblocking k =
     (case task_terminate ext p nonblocking k of
        (ret, k') \<Rightarrow> (ret, k'\<lparr>calls := calls k @ [TaskTerminate p nonblocking]\<rparr>))"

text \<open>Modelled from the spec: \<open>exit\<close> ends the calling task and does not return; the
  model records the call and \<open>task_delete\<close> ends with the outcome \<open>Exited\<close>.\<close>

definition call_exit :: "int \<Rightarrow> 'w::len kernel \<Rightarrow> 'w kernel" where
  "call_exit status k = k\<lparr>calls := calls k @ [ExitCall status]\<rparr>"

text \<open>\<open>dtcb->flags |= bits\<close>\<close>

definition or_flags :: "tcb_ptr \<Rightarrow> 'w::len word \<Rightarrow> 'w kernel \<Rightarrow> 'w kernel" where
  "or_flags dtcb bits k =
     k\<lparr>heap := (heap k)(dtcb := (heap k dtcb)\<lparr>flags := flags (heap k dtcb) OR bits\<rparr>)\<rparr>"

subsection \<open>task_delete\<close>

definition task_delete ::
  "'w::len build \<Rightarrow> 'w collab \<Rightarrow> pid_t \<Rightarrow> 'w kernel \<Rightarrow> outcome \<times> 'w kernel" where
  "task_delete cfg ext pid0 k =
     (let rtcb = g_readytorun_head k;
          pid1 = (if pid0 = 0 then pid (heap k rtcb) else pid0)
      in case sched_gettcb k pid1 of
           None \<Rightarrow> (Returned ERROR, set_errno (ESRCH cfg) k)
         | Some dtcb \<Rightarrow>
             if CONFIG_DEBUG cfg \<and>
                \<not> (flags (heap k dtcb) AND TCB_FLAG_TTYPE_MASK cfg \<noteq> TCB_FLAG_TTYPE_PTHREAD cfg)
             then (Asserted, k)
             else
               let k1 = sched_lock k in
               if flags (heap k1 dtcb) AND TCB_FLAG_NONCANCELABLE cfg \<noteq> 0 then
                 let k2 = or_flags dtcb (TCB_FLAG_CANCEL_PENDING cfg) k1;
                     k3 = sched_unlock k2
                 in (Returned OK, k3)
               else if CONFIG_CANCELLATION_POINTS cfg \<and>
                       flags (heap k1 dtcb) AND TCB_FLAG_CANCEL_DEFERRED cfg \<noteq> 0 then
                 let k2 = or_flags dtcb (TCB_FLAG_CANCEL_PENDING cfg) k1;
                     k3 = (if 0 < cpcount (heap k2 dtcb) then call_notify ext dtcb k2 else k2);
                     k4 = sched_unlock k3
                 in (Returned OK, k4)
               else
                 let k2 = sched_unlock k1 in
                 if pid1 = pid (heap k2 rtcb) then (Exited EXIT_SUCCESS, call_exit EXIT_SUCCESS k2)
                 else
                   case call_terminate ext pid1 False k2 of
                     (ret, k3) \<Rightarrow>
                       if sint ret < 0 then (Returned ERROR, set_errno (sint (- ret)) k3)
                       else (Returned OK, k3))"

subsection \<open>Reading the cancellation state\<close>

text \<open>
  The tests the code makes on a TCB, named: the identifier after \<open>pid == 0\<close> has been
  replaced by the caller's own, the three flag tests, and the condition of the
  \<open>DEBUGASSERT\<close> (which is compiled in only with \<open>CONFIG_DEBUG\<close>).
  \<open>mark_pending\<close> is the state after \<open>sched_lock()\<close> and
  \<open>dtcb->flags |= TCB_FLAG_CANCEL_PENDING\<close>; \<open>new_calls\<close> are the calls logged between
  two states; \<open>lock_discipline d cs\<close> says that the calls \<open>cs\<close>, started with the
  lock held \<open>d\<close> times, never release a lock that is not held, reach \<open>task_terminate\<close>
  and \<open>exit\<close> only with the lock released, and end with the lock released.
\<close>

definition resolve :: "'w::len kernel \<Rightarrow> pid_t \<Rightarrow> pid_t" where
  "resolve k pid0 = (if pid0 = 0 then pid (heap k (g_readytorun_head k)) else pid0)"

definition noncancelable :: "'w::len build \<Rightarrow> 'w tcb_s \<Rightarrow> bool" where
  "noncancelable cfg t = (flags t AND TCB_FLAG_NONCANCELABLE cfg \<noteq> 0)"

definition cancel_deferred :: "'w::len build \<Rightarrow> 'w tcb_s \<Rightarrow> bool" where
  "cancel_deferred cfg t = (flags t AND TCB_FLAG_CANCEL_DEFERRED cfg \<noteq> 0)"

definition cancel_pending :: "'w::len build \<Rightarrow> 'w tcb_s \<Rightarrow> bool" where
  "cancel_pending cfg t = (flags t AND TCB_FLAG_CANCEL_PENDING cfg \<noteq> 0)"

definition type_guard :: "'w::len build \<Rightarrow> 'w tcb_s \<Rightarrow> bool" where
  "type_guard cfg t =
     (\<not> CONFIG_DEBUG cfg \<or> flags t AND TCB_FLAG_TTYPE_MASK cfg \<noteq> TCB_FLAG_TTYPE_PTHREAD cfg)"

definition mark_pending :: "'w::len build \<Rightarrow> tcb_ptr \<Rightarrow> 'w kernel \<Rightarrow> 'w kernel" where
  "mark_pending cfg dtcb k = or_flags dtcb (TCB_FLAG_CANCEL_PENDING cfg) (sched_lock k)"

definition new_calls :: "'w::len kernel \<Rightarrow> 'w kernel \<Rightarrow> call list" where
  "new_calls k k' = drop (length (calls k)) (calls k')"

fun is_notify :: "call \<Rightarrow> bool" where
  "is_notify (NotifyCancellation _) = True"
| "is_notify _ = False"

fun is_terminate :: "call \<Rightarrow> bool" where
  "is_terminate (TaskTerminate _ _) = True"
| "is_terminate _ = False"

fun is_exit :: "call \<Rightarrow> bool" where
  "is_exit (ExitCall _) = True"
| "is_exit _ = False"

fun lock_discipline :: "nat \<Rightarrow> call list \<Rightarrow> bool" where
  "lock_discipline d [] = (d = 0)"
| "lock_discipline d (SchedLock # cs) = lock_discipline (Suc d) cs"
| "lock_discipline d (SchedUnlock # cs) = (0 < d \<and> lock_discipline (d - 1) cs)"
| "lock_discipline d (NotifyCancellation _ # cs) = lock_discipline d cs"
| "lock_discipline d (TaskTerminate _ _ # cs) = (d = 0 \<and> lock_discipline d cs)"
| "lock_discipline d (ExitCall _ # cs) = (d = 0 \<and> lock_discipline d cs)"

subsection \<open>A concrete build and kernel\<close>

text \<open>
  A 16-bit \<open>flags\<close> field with the thread type in bits 0-1 and one bit each for
  non-cancelable, deferred and pending. The kernel \<open>ex_kernel f c g\<close> has two tasks:
  pid 7 at address 11 with flags \<open>f\<close> and cancellation-point count \<open>c\<close>, and the
  running task, pid 9 at address 12 with flags \<open>g\<close>.
\<close>

definition ex_build :: "16 build" where
  "ex_build = \<lparr>CONFIG_CANCELLATION_POINTS = True, CONFIG_DEBUG = True,
     TCB_FLAG_TTYPE_MASK = 3, TCB_FLAG_TTYPE_PTHREAD = 1, TCB_FLAG_NONCANCELABLE = 4,
     TCB_FLAG_CANCEL_DEFERRED = 8, TCB_FLAG_CANCEL_PENDING = 16, ESRCH = 3\<rparr>"

definition ex_build_nocp :: "16 build" where
  "ex_build_nocp = ex_build\<lparr>CONFIG_CANCELLATION_POINTS := False\<rparr>"

definition ex_collab :: "16 collab" where
  "ex_collab = \<lparr>notify_cancellation = (\<lambda>p k. k),
     task_terminate = (\<lambda>p nb k. (0, k\<lparr>pidhash := (pidhash k)(p := None)\<rparr>))\<rparr>"

definition ex_collab_failing :: "16 collab" where
  "ex_collab_failing = \<lparr>notify_cancellation = (\<lambda>p k. k),
     task_terminate = (\<lambda>p nb k. (- 16, k))\<rparr>"

definition ex_kernel :: "16 word \<Rightarrow> int \<Rightarrow> 16 word \<Rightarrow> 16 kernel" where
  "ex_kernel f c g =
     \<lparr>heap = (\<lambda>_. \<lparr>pid = 0, flags = 0, cpcount = 0\<rparr>)
               (11 := \<lparr>pid = 7, flags = f, cpcount = c\<rparr>,
                12 := \<lparr>pid = 9, flags = g, cpcount = 0\<rparr>),
      g_readytorun_head = 12,
      pidhash = [7 \<mapsto> 11, 9 \<mapsto> 12],
      k_errno = 0,
      calls = []\<rparr>"

section \<open>Gathered write: lib/libc/uio/lib_writev.c\<close>

subsection \<open>Data model\<close>

text \<open>
  \<open>size_t\<close> and \<open>ssize_t\<close> are declared in system headers: they are words
  of one width \<open>'a\<close>, read unsigned (\<open>unat\<close>) as \<open>size_t\<close> and signed (\<open>sint\<close>) as
  \<open>ssize_t\<close>. Addition on \<open>ssize_t\<close> wraps around in the model. A buffer address is a
  natural number; \<open>off_t\<close> and file descriptors are integers. The \<open>iov\<close> array is the
  memory behind the pointer, indexed from 0.
\<close>

record (overloaded) ('a::len) iovec =
  iov_base :: nat
  iov_len :: "'a word"

datatype whence = SEEK_SET | SEEK_CUR | SEEK_END

text \<open>
  The calls \<open>writev\<close> makes: \<open>Lseek fd offset whence result\<close>, and
  \<open>Write fd buffer nbytes result errno\<close> with the byte count asked for, the signed result
  and the errno that the call left.
\<close>

datatype io_call =
    Lseek int int whence int
  | Write int nat nat int int

text \<open>
  The state seen by \<open>writev\<close>: the caller's errno, the files and devices (\<open>dev\<close>, of
  any type), and the log of calls, which only the wrappers below extend. \<open>lseek\<close> and
  \<open>write\<close> are parameters (\<open>os_lseek\<close>, \<open>os_write\<close>).
\<close>

record (overloaded) ('a::len, 'f) io_state =
  errno :: int
  dev :: 'f
  io_calls :: "io_call list"

record (overloaded) ('a::len, 'f) posix =
  os_lseek :: "int \<Rightarrow> int \<Rightarrow> whence \<Rightarrow> ('a, 'f) io_state \<Rightarrow> int \<times> ('a, 'f) io_state"
  os_write :: "int \<Rightarrow> nat \<Rightarrow> 'a word \<Rightarrow> ('a, 'f) io_state \<Rightarrow> 'a word \<times> ('a, 'f) io_state"

subsection \<open>Collaborators\<close>

text \<open>Modelled from the spec: \<open>get_errno\<close> and \<open>set_errno\<close> (defined elsewhere in the library)
  read and store the caller's errno. A call of \<open>lseek\<close> or \<open>write\<close> applies the
  parameter to the state and records the call with its result; the log of the state before
  the call is kept.\<close>

definition get_errno :: "('a::len, 'f) io_state \<Rightarrow> int" where
  "get_errno s = errno s"

definition set_errno_io :: "int \<Rightarrow> ('a::len, 'f) io_state \<Rightarrow> ('a, 'f) io_state" where
  "set_errno_io e s = s\<lparr>errno := e\<rparr>"

definition call_lseek ::
  "('a::len, 'f) posix \<Rightarrow> int \<Rightarrow> int \<Rightarrow> whence \<Rightarrow> ('a, 'f) io_state \<Rightarrow> int \<times> ('a, 'f) io_state" where
  "call_lseek os fildes offset wh s =
     (case os_lseek os fildes offset wh s of
        (r, s') \<Rightarrow> (r, s'\<lparr>io_calls := io_calls s @ [Lseek fildes offset wh r]\<rparr>))"

definition call_write ::
  "('a::len, 'f) posix \<Rightarrow> int \<Rightarrow> nat \<Rightarrow> 'a word \<Rightarrow> ('a, 'f) io_state \<Rightarrow> 'a word \<times> ('a, 'f) io_state" where
  "call_write os fildes buffer nbytes s =
     (case os_write os fildes buffer nbytes s of
        (n, s') \<Rightarrow> (n, s'\<lparr>io_calls := io_calls s @ [Write fildes buffer (unat nbytes) (sint n) (errno s')]\<rparr>))"

subsection \<open>writev\<close>

text \<open>
  The \<open>do ... while (remaining > 0)\<close> loop over one buffer. It need not terminate, so
  the result is an option and \<open>None\<close> means that the loop runs forever. \<open>Inl r\<close> is the
  \<open>return r\<close> inside the loop, \<open>Inr ntotal\<close> the normal end of the loop with the new
  total.
\<close>

partial_function (option) write_buffer ::
  "('a::len, 'f) posix \<Rightarrow> int \<Rightarrow> int \<Rightarrow> nat \<Rightarrow> 'a word \<Rightarrow> 'a word \<Rightarrow> ('a, 'f) io_state \<Rightarrow>
     (('a word + 'a word) \<times> ('a, 'f) io_state) option" where
  "write_buffer os fildes pos buffer remaining ntotal s =
     (case call_write os fildes buffer remaining s of
        (nwritten, s1) \<Rightarrow>
          if sint nwritten < 0 then
            (let save = get_errno s1;
                 s2 = snd (call_lseek os fildes pos SEEK_SET s1);
                 s3 = set_errno_io save s2
             in Some (Inl (word_of_int ERROR), s3))
          else
            (let buffer' = buffer + unat nwritten;
                 remaining' = remaining - nwritten;
                 ntotal' = ntotal + nwritten
             in if 0 < remaining' then write_buffer os fildes pos buffer' remaining' ntotal' s1
                else Some (Inr ntotal', s1)))"

text \<open>The \<open>for\<close> loop over the entries, from index \<open>i\<close>.\<close>

function writev_loop ::
  "('a::len, 'f) posix \<Rightarrow> int \<Rightarrow> (nat \<Rightarrow> 'a iovec) \<Rightarrow> int \<Rightarrow> int \<Rightarrow> nat \<Rightarrow> 'a word \<Rightarrow>
     ('a, 'f) io_state \<Rightarrow> ('a word \<times> ('a, 'f) io_state) option" where
  "writev_loop os fildes iov iovcnt pos i ntotal s =
     (if int i < iovcnt then
        (if 0 < iov_len (iov i) then
           (case write_buffer os fildes pos (iov_base (iov i)) (iov_len (iov i)) ntotal s of
              None \<Rightarrow> None
            | Some (Inl r, s') \<Rightarrow> Some (r, s')
            | Some (Inr ntotal', s') \<Rightarrow> writev_loop os fildes iov iovcnt pos (i + 1) ntotal' s')
         else writev_loop os fildes iov iovcnt pos (i + 1) ntotal s)
      else Some (ntotal, s))"
  by pat_completeness auto
termination
  by (relation "measure (\<lambda>(os, fildes, iov, iovcnt, pos, i, ntotal, s). nat (iovcnt - int i))") auto

declare writev_loop.simps [simp del]

definition writev ::
  "('a::len, 'f) posix \<Rightarrow> int \<Rightarrow> (nat \<Rightarrow> 'a iovec) \<Rightarrow> int \<Rightarrow> ('a, 'f) io_state \<Rightarrow>
     ('a word \<times> ('a, 'f) io_state) option" where
  "writev os fildes iov iovcnt s =
     (case call_lseek os fildes 0 SEEK_CUR s of
        (pos, s1) \<Rightarrow>
          if pos = - 1 then Some (word_of_int ERROR, s1)
          else writev_loop os fildes iov iovcnt pos 0 0 s1)"


subsection \<open>Reading the log of calls\<close>

text \<open>
  \<open>new_io\<close> are the calls logged between two states. A write failed when its result is
  negative; it is \<open>ok_write\<close> when it took at least one byte and no more than asked.
  \<open>written\<close> lists, in order, the addresses of the bytes that the writes took.
  \<open>area\<close> is the address range of one entry, \<open>areas iov i n\<close> those of entries
  \<open>i..<n\<close>, \<open>total_len\<close> the sum of their lengths as a number and \<open>sum_len\<close> as a
  word. \<open>restored fildes pos e cs\<close>: the calls end with a failed write that left errno
  \<open>e\<close>, followed by \<open>lseek(fildes, pos, SEEK_SET)\<close>, and no earlier write failed.
  \<open>inner_post\<close> is what the inner loop establishes when it ends.
\<close>

definition new_io :: "('a::len, 'f) io_state \<Rightarrow> ('a, 'f) io_state \<Rightarrow> io_call list" where
  "new_io s s' = drop (length (io_calls s)) (io_calls s')"

fun failed_write :: "io_call \<Rightarrow> bool" where
  "failed_write (Write _ _ _ n _) = (n < 0)"
| "failed_write (Lseek _ _ _ _) = False"

fun ok_write :: "io_call \<Rightarrow> bool" where
  "ok_write (Write _ _ nbytes n _) = (0 < n \<and> nat n \<le> nbytes)"
| "ok_write (Lseek _ _ _ _) = True"

fun written :: "io_call list \<Rightarrow> nat list" where
  "written [] = []"
| "written (Lseek _ _ _ _ # cs) = written cs"
| "written (Write _ buffer _ n _ # cs) = [buffer ..< buffer + nat n] @ written cs"

definition area :: "'a::len iovec \<Rightarrow> nat list" where
  "area v = [iov_base v ..< iov_base v + unat (iov_len v)]"

definition areas :: "(nat \<Rightarrow> 'a::len iovec) \<Rightarrow> nat \<Rightarrow> nat \<Rightarrow> nat list" where
  "areas iov i n = concat (map (\<lambda>j. area (iov j)) [i ..< n])"

definition total_len :: "(nat \<Rightarrow> 'a::len iovec) \<Rightarrow> nat \<Rightarrow> nat \<Rightarrow> nat" where
  "total_len iov i n = sum_list (map (\<lambda>j. unat (iov_len (iov j))) [i ..< n])"

definition sum_len :: "(nat \<Rightarrow> 'a::len iovec) \<Rightarrow> nat \<Rightarrow> nat \<Rightarrow> 'a word" where
  "sum_len iov i n = sum_list (map (\<lambda>j. iov_len (iov j)) [i ..< n])"

definition restored :: "int \<Rightarrow> int \<Rightarrow> int \<Rightarrow> io_call list \<Rightarrow> bool" where
  "restored fildes pos e cs =
     (case rev cs of
        Lseek fd off wh q # Write fd' b nbytes n e' # ws \<Rightarrow>
          fd = fildes \<and> off = pos \<and> wh = SEEK_SET \<and> fd' = fildes \<and> n < 0 \<and> e' = e \<and>
          \<not> list_ex failed_write ws
      | _ \<Rightarrow> False)"

definition inner_post ::
  "('a::len, 'f) posix \<Rightarrow> int \<Rightarrow> int \<Rightarrow> nat \<Rightarrow> 'a word \<Rightarrow> 'a word \<Rightarrow> ('a, 'f) io_state \<Rightarrow>
     ('a word + 'a word) \<times> ('a, 'f) io_state \<Rightarrow> bool" where
  "inner_post os fildes pos buffer remaining ntotal s y =
     (case y of
        (res, s') \<Rightarrow>
          \<exists>cs. io_calls s' = io_calls s @ cs \<and>
            (case res of
               Inr nt \<Rightarrow>
                 nt = ntotal + remaining \<and> \<not> list_ex failed_write cs \<and>
                 (list_all ok_write cs \<longrightarrow> written cs = [buffer ..< buffer + unat remaining])
             | Inl r \<Rightarrow>
                 r = word_of_int ERROR \<and> restored fildes pos (errno s') cs \<and>
                 (\<exists>sf. dev s' = dev (snd (os_lseek os fildes pos SEEK_SET sf)))))"

subsection \<open>A concrete file\<close>

text \<open>
  A 16-bit \<open>size_t\<close>. The device is a file position and a number of free bytes.
  \<open>ex_posix seekable chunk limited\<close>: \<open>lseek\<close> fails with \<open>ESPIPE\<close> (29) unless
  \<open>seekable\<close>; \<open>write\<close> takes at most \<open>chunk\<close> bytes per call and, when \<open>limited\<close>,
  no more than the free bytes, failing with \<open>ENOSPC\<close> (28) when none is free.
\<close>

definition ex_posix :: "bool \<Rightarrow> nat \<Rightarrow> bool \<Rightarrow> (16, int \<times> nat) posix" where
  "ex_posix seekable chunk limited =
     \<lparr>os_lseek = (\<lambda>fd off wh s.
        if \<not> seekable then (- 1, s\<lparr>errno := 29\<rparr>)
        else case wh of
          SEEK_SET \<Rightarrow> (off, s\<lparr>dev := (off, snd (dev s))\<rparr>)
        | SEEK_CUR \<Rightarrow> (fst (dev s) + off, s\<lparr>dev := (fst (dev s) + off, snd (dev s))\<rparr>)
        | SEEK_END \<Rightarrow> (- 1, s\<lparr>errno := 22\<rparr>)),
      os_write = (\<lambda>fd buf n s.
        if limited \<and> snd (dev s) = 0 then (- 1, s\<lparr>errno := 28\<rparr>)
        else
          let k = min (unat n) (if limited then min chunk (snd (dev s)) else chunk)
          in (word_of_nat k, s\<lparr>dev := (fst (dev s) + int k, snd (dev s) - k)\<rparr>))\<rparr>"

text \<open>The limited file on which \<open>lseek\<close> with \<open>SEEK_SET\<close> fails with \<open>EINVAL\<close> (22)
  and leaves the position where it is.\<close>

definition ex_posix_noset :: "(16, int \<times> nat) posix" where
  "ex_posix_noset =
     (ex_posix True 2 True)
       \<lparr>os_lseek := (\<lambda>fd off wh s.
          if wh = SEEK_SET then (- 1, s\<lparr>errno := 22\<rparr>)
          else os_lseek (ex_posix True 2 True) fd off wh s)\<rparr>"

definition ex_iov :: "nat \<Rightarrow> 16 iovec" where
  "ex_iov i =
     (if i = 0 then \<lparr>iov_base = 100, iov_len = 4\<rparr>
      else if i = 1 then \<lparr>iov_base = 200, iov_len = 0\<rparr>
      else \<lparr>iov_base = 300, iov_len = 2\<rparr>)"

definition ex_iov_big :: "nat \<Rightarrow> 16 iovec" where
  "ex_iov_big i = \<lparr>iov_base = 1000, iov_len = 20000\<rparr>"

definition ex_io :: "nat \<Rightarrow> (16, int \<times> nat) io_state" where
  "ex_io free = \<lparr>errno = 0, dev = (40, free), io_calls = []\<rparr>"


section \<open>Properties of task_delete\<close>

subsection \<open>Bits, projections of the wrappers\<close>

lemma or_pending_is_pending:
  "bits \<noteq> 0 \<Longrightarrow> (w OR bits) AND bits \<noteq> (0::'w::len word)"
  by (simp add: bit.conj_disj_distrib2)

lemma and_or_nonzero:
  "w AND m \<noteq> 0 \<Longrightarrow> (w OR bits) AND m \<noteq> (0::'w::len word)"
  by (metis bit.conj_disj_distrib2 or_eq_0_iff)

lemma heap_sched_lock [simp]: "heap (sched_lock k) = heap k"
  by (simp add: sched_lock_def)

lemma heap_sched_unlock [simp]: "heap (sched_unlock k) = heap k"
  by (simp add: sched_unlock_def)

lemma heap_call_exit [simp]: "heap (call_exit s k) = heap k"
  by (simp add: call_exit_def)

lemma heap_set_errno [simp]: "heap (set_errno e k) = heap k"
  by (simp add: set_errno_def)

lemma heap_or_flags: "heap (or_flags p bits k) = (heap k)(p := (heap k p)\<lparr>flags := flags (heap k p) OR bits\<rparr>)"
  by (simp add: or_flags_def)

lemma heap_mark_pending:
  "heap (mark_pending cfg p k) =
     (heap k)(p := (heap k p)\<lparr>flags := flags (heap k p) OR TCB_FLAG_CANCEL_PENDING cfg\<rparr>)"
  by (simp add: mark_pending_def heap_or_flags)

lemma calls_mark_pending [simp]: "calls (mark_pending cfg p k) = calls k @ [SchedLock]"
  by (simp add: mark_pending_def or_flags_def sched_lock_def)

lemma calls_sched_unlock [simp]: "calls (sched_unlock k) = calls k @ [SchedUnlock]"
  by (simp add: sched_unlock_def)

lemma calls_sched_lock [simp]: "calls (sched_lock k) = calls k @ [SchedLock]"
  by (simp add: sched_lock_def)

lemma calls_call_notify [simp]: "calls (call_notify ext p k) = calls k @ [NotifyCancellation p]"
  by (simp add: call_notify_def)

lemma calls_call_exit [simp]: "calls (call_exit s k) = calls k @ [ExitCall s]"
  by (simp add: call_exit_def)

lemma calls_set_errno [simp]: "calls (set_errno e k) = calls k"
  by (simp add: set_errno_def)

lemma calls_call_terminate [simp]:
  "calls (snd (call_terminate ext p nb k)) = calls k @ [TaskTerminate p nb]"
  by (simp add: call_terminate_def split: prod.split)

lemma fst_call_terminate [simp]:
  "fst (call_terminate ext p nb k) = fst (task_terminate ext p nb k)"
  by (simp add: call_terminate_def split: prod.split)

lemma heap_call_terminate [simp]:
  "heap (snd (call_terminate ext p nb k)) = heap (snd (task_terminate ext p nb k))"
  by (simp add: call_terminate_def split: prod.split)

lemma heap_call_notify [simp]:
  "heap (call_notify ext p k) = heap (notify_cancellation ext p k)"
  by (simp add: call_notify_def)

lemma new_calls_append [simp]: "calls k' = calls k @ cs \<Longrightarrow> new_calls k k' = cs"
  by (simp add: new_calls_def)

lemma mark_pending_is_pending:
  "TCB_FLAG_CANCEL_PENDING cfg \<noteq> 0 \<Longrightarrow> cancel_pending cfg (heap (mark_pending cfg p k) p)"
  by (simp add: cancel_pending_def heap_mark_pending or_pending_is_pending)

lemma mark_pending_keeps_pending:
  "cancel_pending cfg (heap k q) \<Longrightarrow> cancel_pending cfg (heap (mark_pending cfg p k) q)"
  by (auto simp add: cancel_pending_def heap_mark_pending and_or_nonzero)

subsection \<open>The paths through task_delete\<close>

lemma path_not_found:
  assumes "sched_gettcb k (resolve k pid0) = None"
  shows "task_delete cfg ext pid0 k = (Returned ERROR, set_errno (ESRCH cfg) k)"
  using assms by (simp add: task_delete_def resolve_def Let_def)

lemma path_assert:
  assumes "sched_gettcb k (resolve k pid0) = Some dtcb"
    and "\<not> type_guard cfg (heap k dtcb)"
  shows "task_delete cfg ext pid0 k = (Asserted, k)"
  using assms by (simp add: task_delete_def resolve_def type_guard_def Let_def)

lemma path_disabled:
  assumes "sched_gettcb k (resolve k pid0) = Some dtcb"
    and "type_guard cfg (heap k dtcb)"
    and "noncancelable cfg (heap k dtcb)"
  shows "task_delete cfg ext pid0 k = (Returned OK, sched_unlock (mark_pending cfg dtcb k))"
  using assms
  by (simp add: task_delete_def resolve_def type_guard_def noncancelable_def mark_pending_def
      Let_def)

lemma path_deferred:
  assumes "sched_gettcb k (resolve k pid0) = Some dtcb"
    and "type_guard cfg (heap k dtcb)"
    and "\<not> noncancelable cfg (heap k dtcb)"
    and "CONFIG_CANCELLATION_POINTS cfg"
    and "cancel_deferred cfg (heap k dtcb)"
  shows "task_delete cfg ext pid0 k =
      (Returned OK,
       sched_unlock
         (if 0 < cpcount (heap k dtcb) then call_notify ext dtcb (mark_pending cfg dtcb k)
          else mark_pending cfg dtcb k))"
  using assms
  by (simp add: task_delete_def resolve_def type_guard_def noncancelable_def
      cancel_deferred_def mark_pending_def Let_def or_flags_def)

lemma path_exit:
  assumes "sched_gettcb k (resolve k pid0) = Some dtcb"
    and "type_guard cfg (heap k dtcb)"
    and "\<not> noncancelable cfg (heap k dtcb)"
    and "\<not> (CONFIG_CANCELLATION_POINTS cfg \<and> cancel_deferred cfg (heap k dtcb))"
    and "resolve k pid0 = pid (heap k (g_readytorun_head k))"
  shows "task_delete cfg ext pid0 k =
      (Exited EXIT_SUCCESS, call_exit EXIT_SUCCESS (sched_unlock (sched_lock k)))"
  using assms
  by (auto simp add: task_delete_def resolve_def type_guard_def noncancelable_def
      cancel_deferred_def Let_def)

lemma path_terminate:
  assumes "sched_gettcb k (resolve k pid0) = Some dtcb"
    and "type_guard cfg (heap k dtcb)"
    and "\<not> noncancelable cfg (heap k dtcb)"
    and "\<not> (CONFIG_CANCELLATION_POINTS cfg \<and> cancel_deferred cfg (heap k dtcb))"
    and "resolve k pid0 \<noteq> pid (heap k (g_readytorun_head k))"
  shows "task_delete cfg ext pid0 k =
      (case call_terminate ext (resolve k pid0) False (sched_unlock (sched_lock k)) of
         (ret, k3) \<Rightarrow>
           if sint ret < 0 then (Returned ERROR, set_errno (sint (- ret)) k3)
           else (Returned OK, k3))"
  using assms
  by (auto simp add: task_delete_def resolve_def type_guard_def noncancelable_def
      cancel_deferred_def Let_def)

subsection \<open>Evaluating the concrete kernel\<close>

lemmas ex_defs = ex_build_def ex_build_nocp_def ex_collab_def ex_collab_failing_def ex_kernel_def
  sched_gettcb_def resolve_def type_guard_def noncancelable_def cancel_deferred_def
  cancel_pending_def

subsection \<open>Deferred cancellation\<close>

text \<open>
  C1. In a build with cancellation points, for a target accepted by the type assertion
  whose non-cancelable bit is clear and whose deferred bit is set, \<open>task_delete\<close>
  returns \<open>OK\<close>; it sets the pending bit under the scheduler lock; it calls
  \<open>notify_cancellation\<close> once, on the target and between lock and unlock, when
  \<open>cpcount > 0\<close>, and not at all otherwise. The pending bit is still set in the final
  state whenever the notifier was not called or does not clear it.
\<close>

theorem task_delete_deferred:
  assumes look: "sched_gettcb k (resolve k pid0) = Some dtcb"
    and guard: "type_guard cfg (heap k dtcb)"
    and enabled: "\<not> noncancelable cfg (heap k dtcb)"
    and cp: "CONFIG_CANCELLATION_POINTS cfg"
    and deferred: "cancel_deferred cfg (heap k dtcb)"
    and bit: "TCB_FLAG_CANCEL_PENDING cfg \<noteq> 0"
  shows "fst (task_delete cfg ext pid0 k) = Returned OK
    \<and> snd (task_delete cfg ext pid0 k) =
        sched_unlock (if 0 < cpcount (heap k dtcb)
                      then call_notify ext dtcb (mark_pending cfg dtcb k)
                      else mark_pending cfg dtcb k)
    \<and> cancel_pending cfg (heap (mark_pending cfg dtcb k) dtcb)
    \<and> new_calls k (snd (task_delete cfg ext pid0 k)) =
        (if 0 < cpcount (heap k dtcb) then [SchedLock, NotifyCancellation dtcb, SchedUnlock]
         else [SchedLock, SchedUnlock])
    \<and> length (filter is_notify (new_calls k (snd (task_delete cfg ext pid0 k)))) =
        (if 0 < cpcount (heap k dtcb) then 1 else 0)
    \<and> (cpcount (heap k dtcb) \<le> 0 \<or>
        (\<forall>k'. cancel_pending cfg (heap k' dtcb) \<longrightarrow>
              cancel_pending cfg (heap (notify_cancellation ext dtcb k') dtcb))
        \<longrightarrow> cancel_pending cfg (heap (snd (task_delete cfg ext pid0 k)) dtcb))"
proof -
  let ?m = "mark_pending cfg dtcb k"
  have eq: "task_delete cfg ext pid0 k =
      (Returned OK, sched_unlock (if 0 < cpcount (heap k dtcb) then call_notify ext dtcb ?m else ?m))"
    by (rule path_deferred [OF look guard enabled cp deferred])
  have pend: "cancel_pending cfg (heap ?m dtcb)"
    by (rule mark_pending_is_pending [OF bit])
  have evs: "new_calls k (snd (task_delete cfg ext pid0 k)) =
        (if 0 < cpcount (heap k dtcb) then [SchedLock, NotifyCancellation dtcb, SchedUnlock]
         else [SchedLock, SchedUnlock])"
    by (simp add: eq)
  have final: "cancel_pending cfg (heap (snd (task_delete cfg ext pid0 k)) dtcb)"
    if "cpcount (heap k dtcb) \<le> 0 \<or>
        (\<forall>k'. cancel_pending cfg (heap k' dtcb) \<longrightarrow>
              cancel_pending cfg (heap (notify_cancellation ext dtcb k') dtcb))"
    using that pend by (auto simp add: eq)
  show ?thesis
    using pend final by (simp add: eq evs)
qed

theorem task_delete_deferred_witness:
  "sched_gettcb (ex_kernel 8 2 0) (resolve (ex_kernel 8 2 0) 7) = Some 11
   \<and> type_guard ex_build (heap (ex_kernel 8 2 0) 11)
   \<and> \<not> noncancelable ex_build (heap (ex_kernel 8 2 0) 11)
   \<and> CONFIG_CANCELLATION_POINTS ex_build
   \<and> cancel_deferred ex_build (heap (ex_kernel 8 2 0) 11)
   \<and> TCB_FLAG_CANCEL_PENDING ex_build \<noteq> 0
   \<and> fst (task_delete ex_build ex_collab 7 (ex_kernel 8 2 0)) = Returned OK
   \<and> new_calls (ex_kernel 8 2 0) (snd (task_delete ex_build ex_collab 7 (ex_kernel 8 2 0))) =
       [SchedLock, NotifyCancellation 11, SchedUnlock]
   \<and> cancel_pending ex_build (heap (snd (task_delete ex_build ex_collab 7 (ex_kernel 8 2 0))) 11)
   \<and> fst (task_delete ex_build ex_collab 7 (ex_kernel 8 0 0)) = Returned OK
   \<and> new_calls (ex_kernel 8 0 0) (snd (task_delete ex_build ex_collab 7 (ex_kernel 8 0 0))) =
       [SchedLock, SchedUnlock]
   \<and> cancel_pending ex_build (heap (snd (task_delete ex_build ex_collab 7 (ex_kernel 8 0 0))) 11)"
proof -
  have h2: "sched_gettcb (ex_kernel 8 2 0) (resolve (ex_kernel 8 2 0) 7) = Some 11"
    "type_guard ex_build (heap (ex_kernel 8 2 0) 11)"
    "\<not> noncancelable ex_build (heap (ex_kernel 8 2 0) 11)"
    "CONFIG_CANCELLATION_POINTS ex_build"
    "cancel_deferred ex_build (heap (ex_kernel 8 2 0) 11)"
    "TCB_FLAG_CANCEL_PENDING ex_build \<noteq> 0"
    by (simp_all add: ex_defs)
  have h0: "sched_gettcb (ex_kernel 8 0 0) (resolve (ex_kernel 8 0 0) 7) = Some 11"
    "type_guard ex_build (heap (ex_kernel 8 0 0) 11)"
    "\<not> noncancelable ex_build (heap (ex_kernel 8 0 0) 11)"
    "cancel_deferred ex_build (heap (ex_kernel 8 0 0) 11)"
    by (simp_all add: ex_defs)
  have n: "heap (notify_cancellation ex_collab 11 k') = heap k'" for k'
    by (simp add: ex_collab_def)
  have c: "cpcount (heap (ex_kernel 8 c 0) 11) = c" for c
    by (simp add: ex_kernel_def)
  show ?thesis
    using task_delete_deferred [OF h2, where ext = ex_collab]
      task_delete_deferred [OF h0(1-3) h2(4) h0(4) h2(6), where ext = ex_collab]
    by (simp add: h2 c n)
qed

lemma pidhash_sched_unlock [simp]: "pidhash (sched_unlock k) = pidhash k"
  by (simp add: sched_unlock_def)

lemma pidhash_mark_pending [simp]: "pidhash (mark_pending cfg p k) = pidhash k"
  by (simp add: mark_pending_def or_flags_def sched_lock_def)

subsection \<open>Non-cancelable target\<close>

text \<open>
  C2. For a target accepted by the type assertion whose non-cancelable bit is set,
  whatever its deferred bit and the build, \<open>task_delete\<close> returns \<open>OK\<close> with the
  pending bit set; the target stays registered, its \<open>pid\<close> and \<open>cpcount\<close> and every
  other TCB are unchanged; the only calls made are \<open>sched_lock\<close> and \<open>sched_unlock\<close>,
  so neither \<open>task_terminate\<close> nor \<open>exit\<close> is reached.
\<close>

theorem task_delete_noncancelable:
  assumes look: "sched_gettcb k (resolve k pid0) = Some dtcb"
    and guard: "type_guard cfg (heap k dtcb)"
    and disabled: "noncancelable cfg (heap k dtcb)"
    and bit: "TCB_FLAG_CANCEL_PENDING cfg \<noteq> 0"
  shows "task_delete cfg ext pid0 k = (Returned OK, sched_unlock (mark_pending cfg dtcb k))
    \<and> cancel_pending cfg (heap (snd (task_delete cfg ext pid0 k)) dtcb)
    \<and> sched_gettcb (snd (task_delete cfg ext pid0 k)) (resolve k pid0) = Some dtcb
    \<and> pidhash (snd (task_delete cfg ext pid0 k)) = pidhash k
    \<and> pid (heap (snd (task_delete cfg ext pid0 k)) dtcb) = pid (heap k dtcb)
    \<and> cpcount (heap (snd (task_delete cfg ext pid0 k)) dtcb) = cpcount (heap k dtcb)
    \<and> (\<forall>p. p \<noteq> dtcb \<longrightarrow> heap (snd (task_delete cfg ext pid0 k)) p = heap k p)
    \<and> new_calls k (snd (task_delete cfg ext pid0 k)) = [SchedLock, SchedUnlock]
    \<and> filter is_terminate (new_calls k (snd (task_delete cfg ext pid0 k))) = []
    \<and> filter is_exit (new_calls k (snd (task_delete cfg ext pid0 k))) = []"
proof -
  have eq: "task_delete cfg ext pid0 k = (Returned OK, sched_unlock (mark_pending cfg dtcb k))"
    by (rule path_disabled [OF look guard disabled])
  have pend: "cancel_pending cfg (heap (mark_pending cfg dtcb k) dtcb)"
    by (rule mark_pending_is_pending [OF bit])
  have reg: "pidhash (sched_unlock (mark_pending cfg dtcb k)) = pidhash k"
    by simp
  have alive: "sched_gettcb (sched_unlock (mark_pending cfg dtcb k)) (resolve k pid0) = Some dtcb"
    using look by (simp add: sched_gettcb_def reg)
  show ?thesis
    using pend alive reg by (simp add: eq heap_mark_pending)
qed

theorem task_delete_noncancelable_witness:
  "sched_gettcb (ex_kernel 12 2 0) (resolve (ex_kernel 12 2 0) 7) = Some 11
   \<and> type_guard ex_build (heap (ex_kernel 12 2 0) 11)
   \<and> noncancelable ex_build (heap (ex_kernel 12 2 0) 11)
   \<and> TCB_FLAG_CANCEL_PENDING ex_build \<noteq> 0
   \<and> fst (task_delete ex_build ex_collab 7 (ex_kernel 12 2 0)) = Returned OK
   \<and> flags (heap (snd (task_delete ex_build ex_collab 7 (ex_kernel 12 2 0))) 11) = 28
   \<and> sched_gettcb (snd (task_delete ex_build ex_collab 7 (ex_kernel 12 2 0))) 7 = Some 11
   \<and> new_calls (ex_kernel 12 2 0) (snd (task_delete ex_build ex_collab 7 (ex_kernel 12 2 0))) =
       [SchedLock, SchedUnlock]"
proof -
  have h: "sched_gettcb (ex_kernel 12 2 0) (resolve (ex_kernel 12 2 0) 7) = Some 11"
    "type_guard ex_build (heap (ex_kernel 12 2 0) 11)"
    "noncancelable ex_build (heap (ex_kernel 12 2 0) 11)"
    "TCB_FLAG_CANCEL_PENDING ex_build \<noteq> 0"
    by (simp_all add: ex_defs)
  have r: "resolve (ex_kernel 12 2 0) 7 = 7"
    by (simp add: resolve_def)
  have f: "flags (heap (mark_pending ex_build 11 (ex_kernel 12 2 0)) 11) = 28"
    by (simp add: heap_mark_pending ex_build_def ex_kernel_def)
  have eq: "task_delete ex_build ex_collab 7 (ex_kernel 12 2 0) =
      (Returned OK, sched_unlock (mark_pending ex_build 11 (ex_kernel 12 2 0)))"
    by (rule task_delete_noncancelable [OF h, where ext = ex_collab, THEN conjunct1])
  have p: "pidhash (ex_kernel 12 2 0) 7 = Some 11"
    by (simp add: ex_kernel_def)
  show ?thesis
    by (simp add: eq h f p r sched_gettcb_def)
qed

subsection \<open>Self-deletion with asynchronous cancellation\<close>

text \<open>
  C3. When the identifier is 0 or the running task's own, the registry maps that
  identifier to the running task's TCB, the type assertion passes, and both the
  non-cancelable and the deferred bit of the running task are clear, \<open>task_delete\<close>
  ends in \<open>exit(EXIT_SUCCESS)\<close>, with status 0, after releasing the lock, and does
  not return.
\<close>

theorem task_delete_self_async_exits:
  assumes self: "pid0 = 0 \<or> pid0 = pid (heap k (g_readytorun_head k))"
    and look: "sched_gettcb k (pid (heap k (g_readytorun_head k))) = Some (g_readytorun_head k)"
    and guard: "type_guard cfg (heap k (g_readytorun_head k))"
    and enabled: "\<not> noncancelable cfg (heap k (g_readytorun_head k))"
    and async: "\<not> cancel_deferred cfg (heap k (g_readytorun_head k))"
  shows "task_delete cfg ext pid0 k =
      (Exited EXIT_SUCCESS, call_exit EXIT_SUCCESS (sched_unlock (sched_lock k)))
    \<and> (\<forall>r. fst (task_delete cfg ext pid0 k) \<noteq> Returned r)
    \<and> fst (task_delete cfg ext pid0 k) = Exited 0
    \<and> new_calls k (snd (task_delete cfg ext pid0 k)) =
        [SchedLock, SchedUnlock, ExitCall EXIT_SUCCESS]
    \<and> heap (snd (task_delete cfg ext pid0 k)) = heap k"
proof -
  have res: "resolve k pid0 = pid (heap k (g_readytorun_head k))"
    using self by (auto simp add: resolve_def)
  have eq: "task_delete cfg ext pid0 k =
      (Exited EXIT_SUCCESS, call_exit EXIT_SUCCESS (sched_unlock (sched_lock k)))"
    by (rule path_exit [where dtcb = "g_readytorun_head k"])
      (simp_all add: res look guard enabled async)
  show ?thesis
    by (simp add: eq EXIT_SUCCESS_def)
qed

theorem task_delete_self_async_exits_witness:
  "((0::int) = 0 \<or> 0 = pid (heap (ex_kernel 0 0 0) (g_readytorun_head (ex_kernel 0 0 0))))
   \<and> sched_gettcb (ex_kernel 0 0 0) (pid (heap (ex_kernel 0 0 0) (g_readytorun_head (ex_kernel 0 0 0))))
       = Some (g_readytorun_head (ex_kernel 0 0 0))
   \<and> type_guard ex_build (heap (ex_kernel 0 0 0) (g_readytorun_head (ex_kernel 0 0 0)))
   \<and> \<not> noncancelable ex_build (heap (ex_kernel 0 0 0) (g_readytorun_head (ex_kernel 0 0 0)))
   \<and> \<not> cancel_deferred ex_build (heap (ex_kernel 0 0 0) (g_readytorun_head (ex_kernel 0 0 0)))
   \<and> fst (task_delete ex_build ex_collab 0 (ex_kernel 0 0 0)) = Exited 0
   \<and> fst (task_delete ex_build ex_collab 9 (ex_kernel 0 0 0)) = Exited 0
   \<and> new_calls (ex_kernel 0 0 0) (snd (task_delete ex_build ex_collab 0 (ex_kernel 0 0 0))) =
       [SchedLock, SchedUnlock, ExitCall 0]"
proof -
  have h: "sched_gettcb (ex_kernel 0 0 0) (pid (heap (ex_kernel 0 0 0) (g_readytorun_head (ex_kernel 0 0 0))))
       = Some (g_readytorun_head (ex_kernel 0 0 0))"
    "type_guard ex_build (heap (ex_kernel 0 0 0) (g_readytorun_head (ex_kernel 0 0 0)))"
    "\<not> noncancelable ex_build (heap (ex_kernel 0 0 0) (g_readytorun_head (ex_kernel 0 0 0)))"
    "\<not> cancel_deferred ex_build (heap (ex_kernel 0 0 0) (g_readytorun_head (ex_kernel 0 0 0)))"
    by (simp_all add: ex_defs)
  have s0: "(0::int) = 0 \<or> 0 = pid (heap (ex_kernel 0 0 0) (g_readytorun_head (ex_kernel 0 0 0)))"
    by simp
  have s9: "(9::int) = 0 \<or> 9 = pid (heap (ex_kernel 0 0 0) (g_readytorun_head (ex_kernel 0 0 0)))"
    by (simp add: ex_kernel_def)
  show ?thesis
    using task_delete_self_async_exits [OF s0 h, where ext = ex_collab]
      task_delete_self_async_exits [OF s9 h, where ext = ex_collab]
    by (simp add: h EXIT_SUCCESS_def)
qed

lemma k_errno_set_errno [simp]: "k_errno (set_errno e k) = e"
  by (simp add: set_errno_def)

lemma k_errno_call_terminate [simp]:
  "k_errno (snd (call_terminate ext p nb k)) = k_errno (snd (task_terminate ext p nb k))"
  by (simp add: call_terminate_def split: prod.split)

lemma pidhash_set_errno [simp]: "pidhash (set_errno e k) = pidhash k"
  by (simp add: set_errno_def)

lemma head_set_errno [simp]: "g_readytorun_head (set_errno e k) = g_readytorun_head k"
  by (simp add: set_errno_def)

subsection \<open>Self-deletion that is held pending\<close>

text \<open>
  C4 (as amended). When the running task deletes itself (identifier 0 or its own) and
  its non-cancelable bit is set, or its deferred bit is set in a build with cancellation
  points, \<open>task_delete\<close> does not exit: it returns \<open>OK\<close>, having set the pending bit
  under the lock, and reaches neither \<open>exit\<close> nor \<open>task_terminate\<close>. The two
  cancellation branches come before the comparison of \<open>pid\<close> with the caller's own.
\<close>

theorem task_delete_self_not_async_returns:
  assumes self: "pid0 = 0 \<or> pid0 = pid (heap k (g_readytorun_head k))"
    and look: "sched_gettcb k (pid (heap k (g_readytorun_head k))) = Some (g_readytorun_head k)"
    and guard: "type_guard cfg (heap k (g_readytorun_head k))"
    and mode: "noncancelable cfg (heap k (g_readytorun_head k)) \<or>
               (CONFIG_CANCELLATION_POINTS cfg \<and> cancel_deferred cfg (heap k (g_readytorun_head k)))"
    and bit: "TCB_FLAG_CANCEL_PENDING cfg \<noteq> 0"
  shows "fst (task_delete cfg ext pid0 k) = Returned OK
    \<and> snd (task_delete cfg ext pid0 k) =
        sched_unlock
          (if \<not> noncancelable cfg (heap k (g_readytorun_head k)) \<and>
              0 < cpcount (heap k (g_readytorun_head k))
           then call_notify ext (g_readytorun_head k) (mark_pending cfg (g_readytorun_head k) k)
           else mark_pending cfg (g_readytorun_head k) k)
    \<and> cancel_pending cfg (heap (mark_pending cfg (g_readytorun_head k) k) (g_readytorun_head k))
    \<and> (\<forall>s. fst (task_delete cfg ext pid0 k) \<noteq> Exited s)
    \<and> filter is_exit (new_calls k (snd (task_delete cfg ext pid0 k))) = []
    \<and> filter is_terminate (new_calls k (snd (task_delete cfg ext pid0 k))) = []"
proof -
  let ?r = "g_readytorun_head k"
  have res: "resolve k pid0 = pid (heap k ?r)"
    using self by (auto simp add: resolve_def)
  have look': "sched_gettcb k (resolve k pid0) = Some ?r"
    by (simp add: res look)
  have pend: "cancel_pending cfg (heap (mark_pending cfg ?r k) ?r)"
    by (rule mark_pending_is_pending [OF bit])
  show ?thesis
  proof (cases "noncancelable cfg (heap k ?r)")
    case True
    have eq: "task_delete cfg ext pid0 k = (Returned OK, sched_unlock (mark_pending cfg ?r k))"
      by (rule path_disabled [OF look' guard True])
    show ?thesis
      using pend True by (simp add: eq)
  next
    case False
    with mode have cp: "CONFIG_CANCELLATION_POINTS cfg"
      and deferred: "cancel_deferred cfg (heap k ?r)"
      by simp_all
    have eq: "task_delete cfg ext pid0 k =
        (Returned OK,
         sched_unlock (if 0 < cpcount (heap k ?r) then call_notify ext ?r (mark_pending cfg ?r k)
                       else mark_pending cfg ?r k))"
      by (rule path_deferred [OF look' guard False cp deferred])
    show ?thesis
      using pend False by (simp add: eq)
  qed
qed

theorem task_delete_self_not_async_returns_witness:
  "((0::int) = 0 \<or> 0 = pid (heap (ex_kernel 0 0 8) (g_readytorun_head (ex_kernel 0 0 8))))
   \<and> sched_gettcb (ex_kernel 0 0 8) (pid (heap (ex_kernel 0 0 8) (g_readytorun_head (ex_kernel 0 0 8))))
       = Some (g_readytorun_head (ex_kernel 0 0 8))
   \<and> type_guard ex_build (heap (ex_kernel 0 0 8) (g_readytorun_head (ex_kernel 0 0 8)))
   \<and> (noncancelable ex_build (heap (ex_kernel 0 0 8) (g_readytorun_head (ex_kernel 0 0 8))) \<or>
       CONFIG_CANCELLATION_POINTS ex_build \<and>
       cancel_deferred ex_build (heap (ex_kernel 0 0 8) (g_readytorun_head (ex_kernel 0 0 8))))
   \<and> TCB_FLAG_CANCEL_PENDING ex_build \<noteq> 0
   \<and> fst (task_delete ex_build ex_collab 0 (ex_kernel 0 0 8)) = Returned OK
   \<and> filter is_exit (new_calls (ex_kernel 0 0 8)
        (snd (task_delete ex_build ex_collab 0 (ex_kernel 0 0 8)))) = []"
proof -
  have h: "(0::int) = 0 \<or> 0 = pid (heap (ex_kernel 0 0 8) (g_readytorun_head (ex_kernel 0 0 8)))"
    "sched_gettcb (ex_kernel 0 0 8) (pid (heap (ex_kernel 0 0 8) (g_readytorun_head (ex_kernel 0 0 8))))
       = Some (g_readytorun_head (ex_kernel 0 0 8))"
    "type_guard ex_build (heap (ex_kernel 0 0 8) (g_readytorun_head (ex_kernel 0 0 8)))"
    "noncancelable ex_build (heap (ex_kernel 0 0 8) (g_readytorun_head (ex_kernel 0 0 8))) \<or>
       CONFIG_CANCELLATION_POINTS ex_build \<and>
       cancel_deferred ex_build (heap (ex_kernel 0 0 8) (g_readytorun_head (ex_kernel 0 0 8)))"
    "TCB_FLAG_CANCEL_PENDING ex_build \<noteq> 0"
    by (simp_all add: ex_defs)
  show ?thesis
    using task_delete_self_not_async_returns [OF h, where ext = ex_collab]
    by (simp add: h)
qed

text \<open>
  Without \<open>CONFIG_CANCELLATION_POINTS\<close> the test of the deferred bit is not compiled:
  a running task whose deferred bit is set and whose non-cancelable bit is clear exits when
  it deletes itself, and its pending bit is not set.
\<close>

theorem task_delete_self_deferred_no_cancellation_points:
  "sched_gettcb (ex_kernel 0 0 8) (resolve (ex_kernel 0 0 8) 0) = Some (g_readytorun_head (ex_kernel 0 0 8))
   \<and> \<not> noncancelable ex_build_nocp (heap (ex_kernel 0 0 8) (g_readytorun_head (ex_kernel 0 0 8)))
   \<and> cancel_deferred ex_build_nocp (heap (ex_kernel 0 0 8) (g_readytorun_head (ex_kernel 0 0 8)))
   \<and> fst (task_delete ex_build_nocp ex_collab 0 (ex_kernel 0 0 8)) = Exited EXIT_SUCCESS
   \<and> fst (task_delete ex_build_nocp ex_collab 0 (ex_kernel 0 0 8)) \<noteq> Returned OK
   \<and> \<not> cancel_pending ex_build_nocp
         (heap (snd (task_delete ex_build_nocp ex_collab 0 (ex_kernel 0 0 8)))
               (g_readytorun_head (ex_kernel 0 0 8)))"
proof -
  have h: "sched_gettcb (ex_kernel 0 0 8) (resolve (ex_kernel 0 0 8) 0) = Some (g_readytorun_head (ex_kernel 0 0 8))"
    "type_guard ex_build_nocp (heap (ex_kernel 0 0 8) (g_readytorun_head (ex_kernel 0 0 8)))"
    "\<not> noncancelable ex_build_nocp (heap (ex_kernel 0 0 8) (g_readytorun_head (ex_kernel 0 0 8)))"
    "\<not> (CONFIG_CANCELLATION_POINTS ex_build_nocp \<and>
        cancel_deferred ex_build_nocp (heap (ex_kernel 0 0 8) (g_readytorun_head (ex_kernel 0 0 8))))"
    "resolve (ex_kernel 0 0 8) 0 = pid (heap (ex_kernel 0 0 8) (g_readytorun_head (ex_kernel 0 0 8)))"
    by (simp_all add: ex_defs)
  have d: "cancel_deferred ex_build_nocp (heap (ex_kernel 0 0 8) (g_readytorun_head (ex_kernel 0 0 8)))"
    "\<not> cancel_pending ex_build_nocp (heap (ex_kernel 0 0 8) (g_readytorun_head (ex_kernel 0 0 8)))"
    by (simp_all add: ex_defs)
  show ?thesis
    using d h(1,3) by (simp add: path_exit [OF h])
qed

subsection \<open>Asynchronous cancellation of another task\<close>

lemma sint_minus_c_int:
  fixes ret :: c_int
  assumes "ret \<noteq> INT_MIN"
  shows "sint (- ret) = - sint ret"
proof -
  have "sint ret \<noteq> sint INT_MIN"
    using assms word_eq_iff_signed [of ret INT_MIN, where 'a = int] by simp
  moreover have "sint INT_MIN = - (2 ^ 31)"
    by (simp add: INT_MIN_def)
  moreover have "- (2 ^ 31) \<le> sint ret" "sint ret < 2 ^ 31"
    using sint_ge [of ret] sint_lt [of ret] by simp_all
  ultimately have "- (2 ^ 31) \<le> - sint ret" "- sint ret < 2 ^ 31"
    by simp_all
  then have "signed_take_bit 31 (- sint ret) = - sint ret"
    by (simp add: signed_take_bit_int_eq_self)
  then show ?thesis
    by (simp add: sint_word_minus)
qed

lemma sint_minus_INT_MIN: "sint (- INT_MIN) = - 2147483648"
  by (simp add: INT_MIN_def)

text \<open>
  C5. For a registered target other than the running task, accepted by the type
  assertion, with the non-cancelable and the deferred bit clear, \<open>task_delete\<close>
  releases the lock and then calls \<open>task_terminate(pid, false)\<close> exactly once. A
  negative result \<open>ret\<close> gives \<open>ERROR\<close> with errno \<open>-ret\<close>, computed in \<open>int\<close>: it is
  the negated code for every \<open>ret\<close> above \<open>INT_MIN\<close>, and wraps to -2147483648 at
  \<open>INT_MIN\<close>. Any other result gives \<open>OK\<close> with errno as the service left it.
\<close>

theorem task_delete_other_async_terminates:
  assumes look: "sched_gettcb k (resolve k pid0) = Some dtcb"
    and other: "resolve k pid0 \<noteq> pid (heap k (g_readytorun_head k))"
    and guard: "type_guard cfg (heap k dtcb)"
    and enabled: "\<not> noncancelable cfg (heap k dtcb)"
    and async: "\<not> cancel_deferred cfg (heap k dtcb)"
  shows "task_delete cfg ext pid0 k =
      (case call_terminate ext (resolve k pid0) False (sched_unlock (sched_lock k)) of
         (ret, k3) \<Rightarrow>
           if sint ret < 0 then (Returned ERROR, set_errno (sint (- ret)) k3)
           else (Returned OK, k3))
    \<and> resolve k pid0 = pid0
    \<and> new_calls k (snd (task_delete cfg ext pid0 k)) =
        [SchedLock, SchedUnlock, TaskTerminate pid0 False]
    \<and> length (filter is_terminate (new_calls k (snd (task_delete cfg ext pid0 k)))) = 1
    \<and> (sint (fst (task_terminate ext pid0 False (sched_unlock (sched_lock k)))) < 0 \<longrightarrow>
         fst (task_delete cfg ext pid0 k) = Returned ERROR \<and>
         k_errno (snd (task_delete cfg ext pid0 k)) =
           sint (- fst (task_terminate ext pid0 False (sched_unlock (sched_lock k)))) \<and>
         (fst (task_terminate ext pid0 False (sched_unlock (sched_lock k))) \<noteq> INT_MIN \<longrightarrow>
            k_errno (snd (task_delete cfg ext pid0 k)) =
              - sint (fst (task_terminate ext pid0 False (sched_unlock (sched_lock k))))) \<and>
         (fst (task_terminate ext pid0 False (sched_unlock (sched_lock k))) = INT_MIN \<longrightarrow>
            k_errno (snd (task_delete cfg ext pid0 k)) = - 2147483648))
    \<and> (0 \<le> sint (fst (task_terminate ext pid0 False (sched_unlock (sched_lock k)))) \<longrightarrow>
         fst (task_delete cfg ext pid0 k) = Returned OK \<and>
         k_errno (snd (task_delete cfg ext pid0 k)) =
           k_errno (snd (task_terminate ext pid0 False (sched_unlock (sched_lock k)))))"
proof -
  let ?ret = "fst (task_terminate ext pid0 False (sched_unlock (sched_lock k)))"
  have res: "resolve k pid0 = pid0"
    using other by (auto simp add: resolve_def)
  have eq: "task_delete cfg ext pid0 k =
      (case call_terminate ext (resolve k pid0) False (sched_unlock (sched_lock k)) of
         (ret, k3) \<Rightarrow>
           if sint ret < 0 then (Returned ERROR, set_errno (sint (- ret)) k3)
           else (Returned OK, k3))"
    by (rule path_terminate [OF look guard enabled _ other]) (simp add: async)
  have sel: "fst (task_delete cfg ext pid0 k) =
        (if sint ?ret < 0 then Returned ERROR else Returned OK)"
    "snd (task_delete cfg ext pid0 k) =
        (if sint ?ret < 0
         then set_errno (sint (- ?ret))
                (snd (call_terminate ext pid0 False (sched_unlock (sched_lock k))))
         else snd (call_terminate ext pid0 False (sched_unlock (sched_lock k))))"
    by (simp_all add: eq res call_terminate_def split: prod.split)
  have evs: "new_calls k (snd (task_delete cfg ext pid0 k)) =
        [SchedLock, SchedUnlock, TaskTerminate pid0 False]"
    by (simp add: sel)
  have len: "length (filter is_terminate (new_calls k (snd (task_delete cfg ext pid0 k)))) = 1"
    by (simp add: evs)
  have fail: "sint ?ret < 0 \<longrightarrow>
         fst (task_delete cfg ext pid0 k) = Returned ERROR \<and>
         k_errno (snd (task_delete cfg ext pid0 k)) = sint (- ?ret) \<and>
         (?ret \<noteq> INT_MIN \<longrightarrow> k_errno (snd (task_delete cfg ext pid0 k)) = - sint ?ret) \<and>
         (?ret = INT_MIN \<longrightarrow> k_errno (snd (task_delete cfg ext pid0 k)) = - 2147483648)"
  proof
    assume neg: "sint ?ret < 0"
    then have e: "k_errno (snd (task_delete cfg ext pid0 k)) = sint (- ?ret)"
      and r: "fst (task_delete cfg ext pid0 k) = Returned ERROR"
      by (simp_all add: sel)
    have "k_errno (snd (task_delete cfg ext pid0 k)) = - sint ?ret" if "?ret \<noteq> INT_MIN"
      unfolding e by (rule sint_minus_c_int [OF that])
    moreover have "k_errno (snd (task_delete cfg ext pid0 k)) = - 2147483648"
      if "?ret = INT_MIN"
      using sint_minus_INT_MIN by (simp only: e that)
    ultimately show "fst (task_delete cfg ext pid0 k) = Returned ERROR \<and>
         k_errno (snd (task_delete cfg ext pid0 k)) = sint (- ?ret) \<and>
         (?ret \<noteq> INT_MIN \<longrightarrow> k_errno (snd (task_delete cfg ext pid0 k)) = - sint ?ret) \<and>
         (?ret = INT_MIN \<longrightarrow> k_errno (snd (task_delete cfg ext pid0 k)) = - 2147483648)"
      using e r by blast
  qed
  have succ: "0 \<le> sint ?ret \<longrightarrow>
         fst (task_delete cfg ext pid0 k) = Returned OK \<and>
         k_errno (snd (task_delete cfg ext pid0 k)) =
           k_errno (snd (task_terminate ext pid0 False (sched_unlock (sched_lock k))))"
    by (simp add: sel)
  show ?thesis
    by (intro conjI) (rule eq, rule res, rule evs, rule len, rule fail, rule succ)
qed

theorem task_delete_other_async_terminates_witness:
  "sched_gettcb (ex_kernel 0 0 0) (resolve (ex_kernel 0 0 0) 7) = Some 11
   \<and> resolve (ex_kernel 0 0 0) 7 \<noteq> pid (heap (ex_kernel 0 0 0) (g_readytorun_head (ex_kernel 0 0 0)))
   \<and> type_guard ex_build (heap (ex_kernel 0 0 0) 11)
   \<and> \<not> noncancelable ex_build (heap (ex_kernel 0 0 0) 11)
   \<and> \<not> cancel_deferred ex_build (heap (ex_kernel 0 0 0) 11)
   \<and> fst (task_delete ex_build ex_collab 7 (ex_kernel 0 0 0)) = Returned OK
   \<and> new_calls (ex_kernel 0 0 0) (snd (task_delete ex_build ex_collab 7 (ex_kernel 0 0 0))) =
       [SchedLock, SchedUnlock, TaskTerminate 7 False]
   \<and> sint (fst (task_terminate ex_collab_failing 7 False
                 (sched_unlock (sched_lock (ex_kernel 0 0 0))))) < 0
   \<and> fst (task_terminate ex_collab_failing 7 False
            (sched_unlock (sched_lock (ex_kernel 0 0 0)))) \<noteq> INT_MIN
   \<and> fst (task_delete ex_build ex_collab_failing 7 (ex_kernel 0 0 0)) = Returned ERROR
   \<and> k_errno (snd (task_delete ex_build ex_collab_failing 7 (ex_kernel 0 0 0))) = 16
   \<and> new_calls (ex_kernel 0 0 0) (snd (task_delete ex_build ex_collab_failing 7 (ex_kernel 0 0 0))) =
       [SchedLock, SchedUnlock, TaskTerminate 7 False]"
proof -
  have h: "sched_gettcb (ex_kernel 0 0 0) (resolve (ex_kernel 0 0 0) 7) = Some 11"
    "resolve (ex_kernel 0 0 0) 7 \<noteq> pid (heap (ex_kernel 0 0 0) (g_readytorun_head (ex_kernel 0 0 0)))"
    "type_guard ex_build (heap (ex_kernel 0 0 0) 11)"
    "\<not> noncancelable ex_build (heap (ex_kernel 0 0 0) 11)"
    "\<not> cancel_deferred ex_build (heap (ex_kernel 0 0 0) 11)"
    by (simp_all add: ex_defs)
  have t: "fst (task_terminate ex_collab p nb k') = 0"
    "fst (task_terminate ex_collab_failing p nb k') = - 16" for p nb k'
    by (simp_all add: ex_collab_def ex_collab_failing_def)
  have m: "(- 16 :: c_int) \<noteq> INT_MIN"
    by (simp add: INT_MIN_def)
  show ?thesis
    using task_delete_other_async_terminates [OF h, where ext = ex_collab, THEN conjunct2]
      task_delete_other_async_terminates [OF h, where ext = ex_collab_failing, THEN conjunct2]
      h
    by (simp add: t m)
qed

subsection \<open>Unknown identifier\<close>

text \<open>
  C6. When the identifier (after 0 has been replaced by the caller's own) is not
  registered, \<open>task_delete\<close> returns \<open>ERROR\<close> (-1) with errno \<open>ESRCH\<close>; no TCB, and
  nothing else of the kernel state but errno, is changed, and no call is made, not even
  \<open>sched_lock\<close>.
\<close>

theorem task_delete_not_found:
  assumes "sched_gettcb k (resolve k pid0) = None"
  shows "task_delete cfg ext pid0 k = (Returned ERROR, set_errno (ESRCH cfg) k)
    \<and> fst (task_delete cfg ext pid0 k) = Returned (- 1)
    \<and> k_errno (snd (task_delete cfg ext pid0 k)) = ESRCH cfg
    \<and> heap (snd (task_delete cfg ext pid0 k)) = heap k
    \<and> pidhash (snd (task_delete cfg ext pid0 k)) = pidhash k
    \<and> g_readytorun_head (snd (task_delete cfg ext pid0 k)) = g_readytorun_head k
    \<and> new_calls k (snd (task_delete cfg ext pid0 k)) = []"
  by (simp add: path_not_found [OF assms] ERROR_def)

theorem task_delete_not_found_witness:
  "sched_gettcb (ex_kernel 0 0 0) (resolve (ex_kernel 0 0 0) 999999) = None
   \<and> fst (task_delete ex_build ex_collab 999999 (ex_kernel 0 0 0)) = Returned (- 1)
   \<and> k_errno (snd (task_delete ex_build ex_collab 999999 (ex_kernel 0 0 0))) = 3
   \<and> heap (snd (task_delete ex_build ex_collab 999999 (ex_kernel 0 0 0))) = heap (ex_kernel 0 0 0)
   \<and> new_calls (ex_kernel 0 0 0) (snd (task_delete ex_build ex_collab 999999 (ex_kernel 0 0 0))) = []"
proof -
  have h: "sched_gettcb (ex_kernel 0 0 0) (resolve (ex_kernel 0 0 0) 999999) = None"
    by (simp add: ex_defs)
  have e: "ESRCH ex_build = 3"
    by (simp add: ex_build_def)
  show ?thesis
    using task_delete_not_found [OF h, where ext = ex_collab and cfg = ex_build,
        THEN conjunct2]
    by (simp add: h e)
qed

subsection \<open>The calls made on each path\<close>

lemma task_delete_calls:
  "\<exists>cs. calls (snd (task_delete cfg ext pid0 k)) = calls k @ cs \<and>
     (case sched_gettcb k (resolve k pid0) of
        None \<Rightarrow> cs = [] \<and> fst (task_delete cfg ext pid0 k) = Returned ERROR
      | Some dtcb \<Rightarrow>
          (fst (task_delete cfg ext pid0 k) = Asserted \<and> cs = []) \<or>
          (fst (task_delete cfg ext pid0 k) = Returned OK \<and>
             (cs = [SchedLock, SchedUnlock] \<or>
              cs = [SchedLock, NotifyCancellation dtcb, SchedUnlock])) \<or>
          (fst (task_delete cfg ext pid0 k) = Exited EXIT_SUCCESS \<and>
             cs = [SchedLock, SchedUnlock, ExitCall EXIT_SUCCESS]) \<or>
          ((\<exists>r. fst (task_delete cfg ext pid0 k) = Returned r) \<and>
             cs = [SchedLock, SchedUnlock, TaskTerminate (resolve k pid0) False]))"
proof (cases "sched_gettcb k (resolve k pid0)")
  case None
  then show ?thesis
    by (simp add: path_not_found)
next
  case (Some dtcb)
  note look = Some
  show ?thesis
  proof (cases "type_guard cfg (heap k dtcb)")
    case False
    then show ?thesis
      using look by (simp add: path_assert)
  next
    case guard: True
    show ?thesis
    proof (cases "noncancelable cfg (heap k dtcb)")
      case True
      then show ?thesis
        using look guard by (simp add: path_disabled)
    next
      case enabled: False
      show ?thesis
      proof (cases "CONFIG_CANCELLATION_POINTS cfg \<and> cancel_deferred cfg (heap k dtcb)")
        case True
        then show ?thesis
          using look guard enabled by (simp add: path_deferred)
      next
        case async: False
        show ?thesis
        proof (cases "resolve k pid0 = pid (heap k (g_readytorun_head k))")
          case True
          then show ?thesis
            using look by (simp add: path_exit [OF look guard enabled async])
        next
          case other: False
          obtain ret k3 where ct:
            "call_terminate ext (resolve k pid0) False (sched_unlock (sched_lock k)) = (ret, k3)"
            by (cases "call_terminate ext (resolve k pid0) False (sched_unlock (sched_lock k))")
          have "calls (snd (call_terminate ext (resolve k pid0) False (sched_unlock (sched_lock k)))) =
              calls k @ [SchedLock, SchedUnlock, TaskTerminate (resolve k pid0) False]"
            by simp
          then have c3: "calls k3 = calls k @ [SchedLock, SchedUnlock, TaskTerminate (resolve k pid0) False]"
            by (simp add: ct)
          have eq: "task_delete cfg ext pid0 k =
              (if sint ret < 0 then (Returned ERROR, set_errno (sint (- ret)) k3)
               else (Returned OK, k3))"
            by (simp add: path_terminate [OF look guard enabled async other] ct)
          show ?thesis
            by (simp add: look eq c3)
        qed
      qed
    qed
  qed
qed


subsection \<open>Scheduler lock\<close>

text \<open>
  C8. On every path \<open>task_delete\<close> only appends to the call log, and what it
  appends keeps the lock discipline: no release without an acquisition, as many releases
  as acquisitions, and \<open>exit\<close> or \<open>task_terminate\<close> only after exactly one
  \<open>sched_lock\<close> and one \<open>sched_unlock\<close>, as the last call. A call that returns for a
  registered target made exactly one acquisition and one release; when the identifier is
  not registered no call is made at all.
\<close>

theorem task_delete_lock_balanced:
  "calls (snd (task_delete cfg ext pid0 k)) =
     calls k @ new_calls k (snd (task_delete cfg ext pid0 k))
   \<and> lock_discipline 0 (new_calls k (snd (task_delete cfg ext pid0 k)))
   \<and> count_list (new_calls k (snd (task_delete cfg ext pid0 k))) SchedLock =
       count_list (new_calls k (snd (task_delete cfg ext pid0 k))) SchedUnlock
   \<and> (sched_gettcb k (resolve k pid0) = None \<longrightarrow>
         new_calls k (snd (task_delete cfg ext pid0 k)) = [])
   \<and> (\<forall>r. fst (task_delete cfg ext pid0 k) = Returned r \<and>
            sched_gettcb k (resolve k pid0) \<noteq> None \<longrightarrow>
         count_list (new_calls k (snd (task_delete cfg ext pid0 k))) SchedLock = 1 \<and>
         count_list (new_calls k (snd (task_delete cfg ext pid0 k))) SchedUnlock = 1)
   \<and> (\<forall>pre c post.
         new_calls k (snd (task_delete cfg ext pid0 k)) = pre @ c # post \<and>
         (is_exit c \<or> is_terminate c) \<longrightarrow>
         pre = [SchedLock, SchedUnlock] \<and> post = [])"
proof -
  obtain cs where cs: "calls (snd (task_delete cfg ext pid0 k)) = calls k @ cs"
    and shape: "case sched_gettcb k (resolve k pid0) of
        None \<Rightarrow> cs = [] \<and> fst (task_delete cfg ext pid0 k) = Returned ERROR
      | Some dtcb \<Rightarrow>
          (fst (task_delete cfg ext pid0 k) = Asserted \<and> cs = []) \<or>
          (fst (task_delete cfg ext pid0 k) = Returned OK \<and>
             (cs = [SchedLock, SchedUnlock] \<or>
              cs = [SchedLock, NotifyCancellation dtcb, SchedUnlock])) \<or>
          (fst (task_delete cfg ext pid0 k) = Exited EXIT_SUCCESS \<and>
             cs = [SchedLock, SchedUnlock, ExitCall EXIT_SUCCESS]) \<or>
          ((\<exists>r. fst (task_delete cfg ext pid0 k) = Returned r) \<and>
             cs = [SchedLock, SchedUnlock, TaskTerminate (resolve k pid0) False])"
    using task_delete_calls [of cfg ext pid0 k] by blast
  have nc: "new_calls k (snd (task_delete cfg ext pid0 k)) = cs"
    by (simp add: cs)
  have cases: "cs = [] \<and> (sched_gettcb k (resolve k pid0) \<noteq> None \<longrightarrow>
                 fst (task_delete cfg ext pid0 k) = Asserted)
      \<or> sched_gettcb k (resolve k pid0) \<noteq> None \<and>
         (cs = [SchedLock, SchedUnlock]
          \<or> (\<exists>d. cs = [SchedLock, NotifyCancellation d, SchedUnlock])
          \<or> (\<exists>s. cs = [SchedLock, SchedUnlock, ExitCall s] \<and>
                  fst (task_delete cfg ext pid0 k) = Exited s)
          \<or> (\<exists>p. cs = [SchedLock, SchedUnlock, TaskTerminate p False]))"
    using shape by (cases "sched_gettcb k (resolve k pid0)") auto
  have disc: "lock_discipline 0 cs"
    using cases by auto
  have bal: "count_list cs SchedLock = count_list cs SchedUnlock"
    using cases by auto
  have nf: "sched_gettcb k (resolve k pid0) = None \<longrightarrow> cs = []"
    using cases by auto
  have one: "\<forall>r. fst (task_delete cfg ext pid0 k) = Returned r \<and>
            sched_gettcb k (resolve k pid0) \<noteq> None \<longrightarrow>
         count_list cs SchedLock = 1 \<and> count_list cs SchedUnlock = 1"
    using cases by auto
  have before: "\<forall>pre c post. cs = pre @ c # post \<and> (is_exit c \<or> is_terminate c) \<longrightarrow>
         pre = [SchedLock, SchedUnlock] \<and> post = []"
    using cases by (auto simp add: append_eq_Cons_conv)
  show ?thesis
    unfolding nc using cs disc bal nf one before by blast
qed


theorem task_delete_lock_balanced_witness:
  "sched_gettcb (ex_kernel 0 0 0) (resolve (ex_kernel 0 0 0) 999999) = None
   \<and> new_calls (ex_kernel 0 0 0)
        (snd (task_delete ex_build ex_collab 999999 (ex_kernel 0 0 0))) = []
   \<and> fst (task_delete ex_build ex_collab 7 (ex_kernel 4 0 0)) = Returned OK
   \<and> sched_gettcb (ex_kernel 4 0 0) (resolve (ex_kernel 4 0 0) 7) \<noteq> None
   \<and> count_list (new_calls (ex_kernel 4 0 0)
        (snd (task_delete ex_build ex_collab 7 (ex_kernel 4 0 0)))) SchedLock = 1
   \<and> count_list (new_calls (ex_kernel 4 0 0)
        (snd (task_delete ex_build ex_collab 7 (ex_kernel 4 0 0)))) SchedUnlock = 1
   \<and> lock_discipline 0 (new_calls (ex_kernel 0 0 0)
        (snd (task_delete ex_build ex_collab 7 (ex_kernel 0 0 0))))
   \<and> new_calls (ex_kernel 0 0 0) (snd (task_delete ex_build ex_collab 7 (ex_kernel 0 0 0))) =
        [SchedLock, SchedUnlock] @ TaskTerminate 7 False # []
   \<and> (is_exit (TaskTerminate 7 False) \<or> is_terminate (TaskTerminate 7 False))"
proof -
  have nf: "sched_gettcb (ex_kernel 0 0 0) (resolve (ex_kernel 0 0 0) 999999) = None"
    by (simp add: ex_defs)
  have h: "sched_gettcb (ex_kernel 4 0 0) (resolve (ex_kernel 4 0 0) 7) = Some 11"
    "type_guard ex_build (heap (ex_kernel 4 0 0) 11)"
    "noncancelable ex_build (heap (ex_kernel 4 0 0) 11)"
    by (simp_all add: ex_defs)
  have ok: "fst (task_delete ex_build ex_collab 7 (ex_kernel 4 0 0)) = Returned OK"
    by (simp add: path_disabled [OF h])
  have t: "sched_gettcb (ex_kernel 0 0 0) (resolve (ex_kernel 0 0 0) 7) = Some 11"
    "type_guard ex_build (heap (ex_kernel 0 0 0) 11)"
    "\<not> noncancelable ex_build (heap (ex_kernel 0 0 0) 11)"
    "\<not> (CONFIG_CANCELLATION_POINTS ex_build \<and> cancel_deferred ex_build (heap (ex_kernel 0 0 0) 11))"
    "resolve (ex_kernel 0 0 0) 7 \<noteq> pid (heap (ex_kernel 0 0 0) (g_readytorun_head (ex_kernel 0 0 0)))"
    by (simp_all add: ex_defs)
  have r: "resolve (ex_kernel 0 0 0) 7 = 7"
    by (simp add: resolve_def)
  have tc: "new_calls (ex_kernel 0 0 0) (snd (task_delete ex_build ex_collab 7 (ex_kernel 0 0 0))) =
        [SchedLock, SchedUnlock, TaskTerminate 7 False]"
    by (simp add: path_terminate [OF t] r split: prod.split)
      (simp add: call_terminate_def ex_collab_def sched_lock_def sched_unlock_def new_calls_def
        ex_kernel_def)
  note b1 = task_delete_lock_balanced [of ex_build ex_collab 999999 "ex_kernel 0 0 0"]
  note b2 = task_delete_lock_balanced [of ex_build ex_collab 7 "ex_kernel 4 0 0"]
  note b3 = task_delete_lock_balanced [of ex_build ex_collab 7 "ex_kernel 0 0 0"]
  have w1: "new_calls (ex_kernel 0 0 0)
        (snd (task_delete ex_build ex_collab 999999 (ex_kernel 0 0 0))) = []"
    using b1 nf by blast
  have w2: "count_list (new_calls (ex_kernel 4 0 0)
        (snd (task_delete ex_build ex_collab 7 (ex_kernel 4 0 0)))) SchedLock = 1
     \<and> count_list (new_calls (ex_kernel 4 0 0)
        (snd (task_delete ex_build ex_collab 7 (ex_kernel 4 0 0)))) SchedUnlock = 1"
    using b2 ok h(1) by blast
  have w3: "lock_discipline 0 (new_calls (ex_kernel 0 0 0)
        (snd (task_delete ex_build ex_collab 7 (ex_kernel 0 0 0))))"
    using b3 by blast
  show ?thesis
    using w1 w2 w3 by (simp add: nf ok h tc)
qed

subsection \<open>The pending bit is sticky\<close>

lemma head_sched_unlock [simp]: "g_readytorun_head (sched_unlock k) = g_readytorun_head k"
  by (simp add: sched_unlock_def)

lemma head_mark_pending [simp]: "g_readytorun_head (mark_pending cfg p k) = g_readytorun_head k"
  by (simp add: mark_pending_def or_flags_def sched_lock_def)

lemma pid_heap_mark_pending [simp]: "pid (heap (mark_pending cfg p k) q) = pid (heap k q)"
  by (simp add: heap_mark_pending)

lemma heap_mark_pending_twice:
  "heap (mark_pending cfg p (sched_unlock (mark_pending cfg p k))) = heap (mark_pending cfg p k)"
  by (simp add: heap_mark_pending)

lemma task_delete_keeps_pending:
  assumes notify_frame: "\<And>q k' p. cancel_pending cfg (heap k' p) \<Longrightarrow>
      cancel_pending cfg (heap (notify_cancellation ext q k') p)"
    and terminate_frame: "\<And>q nb k' p. cancel_pending cfg (heap k' p) \<Longrightarrow>
      cancel_pending cfg (heap (snd (task_terminate ext q nb k')) p)"
    and pend: "cancel_pending cfg (heap k p)"
  shows "cancel_pending cfg (heap (snd (task_delete cfg ext pid0 k)) p)"
proof (cases "sched_gettcb k (resolve k pid0)")
  case None
  then show ?thesis
    using pend by (simp add: path_not_found)
next
  case look: (Some dtcb)
  show ?thesis
  proof (cases "type_guard cfg (heap k dtcb)")
    case False
    then show ?thesis
      using look pend by (simp add: path_assert)
  next
    case guard: True
    have marked: "cancel_pending cfg (heap (mark_pending cfg dtcb k) p)"
      by (rule mark_pending_keeps_pending [OF pend])
    show ?thesis
    proof (cases "noncancelable cfg (heap k dtcb)")
      case True
      then show ?thesis
        using look guard marked by (simp add: path_disabled)
    next
      case enabled: False
      show ?thesis
      proof (cases "CONFIG_CANCELLATION_POINTS cfg \<and> cancel_deferred cfg (heap k dtcb)")
        case True
        then show ?thesis
          using look guard enabled marked notify_frame [OF marked]
          by (simp add: path_deferred)
      next
        case async: False
        show ?thesis
        proof (cases "resolve k pid0 = pid (heap k (g_readytorun_head k))")
          case True
          then show ?thesis
            using pend by (simp add: path_exit [OF look guard enabled async])
        next
          case other: False
          obtain ret k3 where ct:
            "call_terminate ext (resolve k pid0) False (sched_unlock (sched_lock k)) = (ret, k3)"
            by (cases "call_terminate ext (resolve k pid0) False (sched_unlock (sched_lock k))")
          have "heap (snd (call_terminate ext (resolve k pid0) False (sched_unlock (sched_lock k)))) =
              heap (snd (task_terminate ext (resolve k pid0) False (sched_unlock (sched_lock k))))"
            by simp
          then have h3: "heap k3 =
              heap (snd (task_terminate ext (resolve k pid0) False (sched_unlock (sched_lock k))))"
            by (simp add: ct)
          have "cancel_pending cfg (heap (sched_unlock (sched_lock k)) p)"
            using pend by simp
          then have p3: "cancel_pending cfg (heap k3 p)"
            unfolding h3 by (rule terminate_frame)
          have eq: "task_delete cfg ext pid0 k =
              (if sint ret < 0 then (Returned ERROR, set_errno (sint (- ret)) k3)
               else (Returned OK, k3))"
            by (simp add: path_terminate [OF look guard enabled async other] ct)
          show ?thesis
            using p3 by (simp add: eq)
        qed
      qed
    qed
  qed
qed

text \<open>
  C7 (as amended). Provided the notifier and the termination service do not clear a
  pending bit, and the pending mask is not zero: \<open>task_delete\<close> never clears the pending
  bit of any TCB; for a target accepted by the type assertion whose non-cancelable bit is
  set, or whose deferred bit is set in a build with cancellation points, the pending bit is
  set after one call and still set after a second call; and in the non-cancelable state
  the second call leaves the TCB store exactly as the first call left it.
\<close>

theorem cancel_pending_sticky:
  assumes notify_frame: "\<And>q k' p. cancel_pending cfg (heap k' p) \<Longrightarrow>
      cancel_pending cfg (heap (notify_cancellation ext q k') p)"
    and terminate_frame: "\<And>q nb k' p. cancel_pending cfg (heap k' p) \<Longrightarrow>
      cancel_pending cfg (heap (snd (task_terminate ext q nb k')) p)"
    and bit: "TCB_FLAG_CANCEL_PENDING cfg \<noteq> 0"
  shows "(\<forall>p. cancel_pending cfg (heap k p) \<longrightarrow>
            cancel_pending cfg (heap (snd (task_delete cfg ext pid0 k)) p))
    \<and> (\<forall>dtcb. sched_gettcb k (resolve k pid0) = Some dtcb \<and> type_guard cfg (heap k dtcb) \<and>
            (noncancelable cfg (heap k dtcb) \<or>
             CONFIG_CANCELLATION_POINTS cfg \<and> cancel_deferred cfg (heap k dtcb)) \<longrightarrow>
          cancel_pending cfg (heap (snd (task_delete cfg ext pid0 k)) dtcb) \<and>
          cancel_pending cfg
            (heap (snd (task_delete cfg ext pid0 (snd (task_delete cfg ext pid0 k)))) dtcb))
    \<and> (\<forall>dtcb. sched_gettcb k (resolve k pid0) = Some dtcb \<and> type_guard cfg (heap k dtcb) \<and>
            noncancelable cfg (heap k dtcb) \<and>
            type_guard cfg (heap (snd (task_delete cfg ext pid0 k)) dtcb) \<longrightarrow>
          heap (snd (task_delete cfg ext pid0 (snd (task_delete cfg ext pid0 k)))) =
          heap (snd (task_delete cfg ext pid0 k)))"
proof (intro conjI allI impI)
  fix p
  assume "cancel_pending cfg (heap k p)"
  with notify_frame terminate_frame
  show "cancel_pending cfg (heap (snd (task_delete cfg ext pid0 k)) p)"
    by (rule task_delete_keeps_pending)
next
  fix dtcb
  assume a: "sched_gettcb k (resolve k pid0) = Some dtcb \<and> type_guard cfg (heap k dtcb) \<and>
            (noncancelable cfg (heap k dtcb) \<or>
             CONFIG_CANCELLATION_POINTS cfg \<and> cancel_deferred cfg (heap k dtcb))"
  then have look: "sched_gettcb k (resolve k pid0) = Some dtcb"
    and guard: "type_guard cfg (heap k dtcb)"
    by simp_all
  have marked: "cancel_pending cfg (heap (mark_pending cfg dtcb k) dtcb)"
    by (rule mark_pending_is_pending [OF bit])
  show first: "cancel_pending cfg (heap (snd (task_delete cfg ext pid0 k)) dtcb)"
  proof (cases "noncancelable cfg (heap k dtcb)")
    case True
    then show ?thesis
      using look guard marked by (simp add: path_disabled)
  next
    case False
    with a have "CONFIG_CANCELLATION_POINTS cfg" "cancel_deferred cfg (heap k dtcb)"
      by simp_all
    then show ?thesis
      using look guard False marked notify_frame [OF marked]
      by (simp add: path_deferred)
  qed
  show "cancel_pending cfg
      (heap (snd (task_delete cfg ext pid0 (snd (task_delete cfg ext pid0 k)))) dtcb)"
    using notify_frame terminate_frame first by (rule task_delete_keeps_pending)
next
  fix dtcb
  assume a: "sched_gettcb k (resolve k pid0) = Some dtcb \<and> type_guard cfg (heap k dtcb) \<and>
            noncancelable cfg (heap k dtcb) \<and>
            type_guard cfg (heap (snd (task_delete cfg ext pid0 k)) dtcb)"
  let ?k1 = "sched_unlock (mark_pending cfg dtcb k)"
  from a have look: "sched_gettcb k (resolve k pid0) = Some dtcb"
    and guard: "type_guard cfg (heap k dtcb)"
    and disabled: "noncancelable cfg (heap k dtcb)"
    by simp_all
  have eq1: "task_delete cfg ext pid0 k = (Returned OK, ?k1)"
    by (rule path_disabled [OF look guard disabled])
  have guard1: "type_guard cfg (heap ?k1 dtcb)"
    using a by (simp add: eq1)
  have res1: "resolve ?k1 pid0 = resolve k pid0"
    by (simp add: resolve_def)
  have look1: "sched_gettcb ?k1 (resolve ?k1 pid0) = Some dtcb"
    using look by (simp add: res1 sched_gettcb_def)
  have disabled1: "noncancelable cfg (heap ?k1 dtcb)"
    using disabled by (simp add: noncancelable_def heap_mark_pending and_or_nonzero)
  have eq2: "task_delete cfg ext pid0 ?k1 = (Returned OK, sched_unlock (mark_pending cfg dtcb ?k1))"
    by (rule path_disabled [OF look1 guard1 disabled1])
  show "heap (snd (task_delete cfg ext pid0 (snd (task_delete cfg ext pid0 k)))) =
      heap (snd (task_delete cfg ext pid0 k))"
    by (simp add: eq1 eq2 heap_mark_pending_twice)
qed

theorem cancel_pending_sticky_witness:
  "TCB_FLAG_CANCEL_PENDING ex_build \<noteq> 0
   \<and> sched_gettcb (ex_kernel 4 0 0) (resolve (ex_kernel 4 0 0) 7) = Some 11
   \<and> type_guard ex_build (heap (ex_kernel 4 0 0) 11)
   \<and> noncancelable ex_build (heap (ex_kernel 4 0 0) 11)
   \<and> cancel_pending ex_build (heap (snd (task_delete ex_build ex_collab 7 (ex_kernel 4 0 0))) 11)
   \<and> cancel_pending ex_build
        (heap (snd (task_delete ex_build ex_collab 7
                      (snd (task_delete ex_build ex_collab 7 (ex_kernel 4 0 0))))) 11)
   \<and> type_guard ex_build (heap (snd (task_delete ex_build ex_collab 7 (ex_kernel 4 0 0))) 11)
   \<and> heap (snd (task_delete ex_build ex_collab 7
                   (snd (task_delete ex_build ex_collab 7 (ex_kernel 4 0 0))))) =
       heap (snd (task_delete ex_build ex_collab 7 (ex_kernel 4 0 0)))
   \<and> cancel_pending ex_build (heap (ex_kernel 16 0 0) 11)
   \<and> cancel_pending ex_build (heap (snd (task_delete ex_build ex_collab 0 (ex_kernel 16 0 0))) 11)"
proof -
  have n: "\<And>q k' p. cancel_pending ex_build (heap k' p) \<Longrightarrow>
      cancel_pending ex_build (heap (notify_cancellation ex_collab q k') p)"
    by (simp add: ex_collab_def)
  have t: "\<And>q nb k' p. cancel_pending ex_build (heap k' p) \<Longrightarrow>
      cancel_pending ex_build (heap (snd (task_terminate ex_collab q nb k')) p)"
    by (simp add: ex_collab_def)
  have b: "TCB_FLAG_CANCEL_PENDING ex_build \<noteq> 0"
    by (simp add: ex_build_def)
  have h: "sched_gettcb (ex_kernel 4 0 0) (resolve (ex_kernel 4 0 0) 7) = Some 11"
    "type_guard ex_build (heap (ex_kernel 4 0 0) 11)"
    "noncancelable ex_build (heap (ex_kernel 4 0 0) 11)"
    by (simp_all add: ex_defs)
  have p: "cancel_pending ex_build (heap (ex_kernel 16 0 0) 11)"
    by (simp add: ex_defs)
  note s1 = cancel_pending_sticky [OF n t b, of "ex_kernel 4 0 0" 7]
  note s2 = cancel_pending_sticky [OF n t b, of "ex_kernel 16 0 0" 0]
  have w1: "cancel_pending ex_build (heap (snd (task_delete ex_build ex_collab 7 (ex_kernel 4 0 0))) 11)
     \<and> cancel_pending ex_build
        (heap (snd (task_delete ex_build ex_collab 7
                      (snd (task_delete ex_build ex_collab 7 (ex_kernel 4 0 0))))) 11)"
    using s1 h by blast
  have w2: "cancel_pending ex_build (heap (snd (task_delete ex_build ex_collab 0 (ex_kernel 16 0 0))) 11)"
    using s2 p by blast
  have e1: "task_delete ex_build ex_collab 7 (ex_kernel 4 0 0) =
      (Returned OK, sched_unlock (mark_pending ex_build 11 (ex_kernel 4 0 0)))"
    by (rule path_disabled [OF h])
  have g1: "type_guard ex_build (heap (snd (task_delete ex_build ex_collab 7 (ex_kernel 4 0 0))) 11)"
    unfolding e1 by (simp add: heap_mark_pending type_guard_def ex_build_def ex_kernel_def)
  have w3: "heap (snd (task_delete ex_build ex_collab 7
                   (snd (task_delete ex_build ex_collab 7 (ex_kernel 4 0 0))))) =
       heap (snd (task_delete ex_build ex_collab 7 (ex_kernel 4 0 0)))"
    using s1 h g1 by blast
  show ?thesis
    using b h p w1 w2 g1 w3 by blast
qed

text \<open>
  Without \<open>CONFIG_CANCELLATION_POINTS\<close> a target whose deferred bit is set and whose
  non-cancelable bit is clear is handed to \<open>task_terminate\<close>; when that fails, twice, the
  pending bit is still clear.
\<close>

theorem cancel_pending_unset_no_cancellation_points:
  "sched_gettcb (ex_kernel 8 0 0) (resolve (ex_kernel 8 0 0) 7) = Some 11
   \<and> \<not> noncancelable ex_build_nocp (heap (ex_kernel 8 0 0) 11)
   \<and> cancel_deferred ex_build_nocp (heap (ex_kernel 8 0 0) 11)
   \<and> fst (task_delete ex_build_nocp ex_collab_failing 7 (ex_kernel 8 0 0)) = Returned ERROR
   \<and> \<not> cancel_pending ex_build_nocp
        (heap (snd (task_delete ex_build_nocp ex_collab_failing 7
                      (snd (task_delete ex_build_nocp ex_collab_failing 7 (ex_kernel 8 0 0))))) 11)"
  by (simp add: task_delete_def ex_defs Let_def call_terminate_def sched_lock_def
      sched_unlock_def set_errno_def)

section \<open>Properties of writev\<close>

subsection \<open>Calls, words and intervals\<close>

lemma io_calls_call_write:
  "call_write os fildes buffer nbytes s = (n, s1) \<Longrightarrow>
     io_calls s1 = io_calls s @ [Write fildes buffer (unat nbytes) (sint n) (errno s1)]"
  by (auto simp add: call_write_def split: prod.splits)

lemma io_calls_call_lseek:
  "call_lseek os fildes off wh s = (r, s1) \<Longrightarrow>
     io_calls s1 = io_calls s @ [Lseek fildes off wh r] \<and>
     r = fst (os_lseek os fildes off wh s) \<and>
     dev s1 = dev (snd (os_lseek os fildes off wh s)) \<and>
     errno s1 = errno (snd (os_lseek os fildes off wh s))"
  by (auto simp add: call_lseek_def split: prod.splits)

lemma restored_append:
  "restored fildes pos e (ws @ [Write fildes b nbytes n e, Lseek fildes pos SEEK_SET q]) =
     (n < 0 \<and> \<not> list_ex failed_write ws)"
  by (simp add: restored_def list_ex_iff)

lemma restored_Cons:
  "restored fildes pos e cs \<Longrightarrow> \<not> failed_write c \<Longrightarrow> restored fildes pos e (c # cs)"
  by (auto simp add: restored_def list_ex_iff split: list.splits io_call.splits)

lemma nat_sint_nonneg:
  fixes n :: "'a::len word"
  assumes "0 \<le> sint n"
  shows "nat (sint n) = unat n"
proof -
  have "sint n < 2 ^ (LENGTH('a) - 1)"
    by (rule sint_lt)
  also have "(2::int) ^ (LENGTH('a) - 1) \<le> 2 ^ LENGTH('a)"
    by (rule power_increasing) simp_all
  finally have "take_bit LENGTH('a) (sint n) = sint n"
    using assms by (simp add: take_bit_int_eq_self)
  then have "uint n = sint n"
    by (simp add: uint_sint)
  then show ?thesis
    by (metis unat_eq_nat_uint)
qed

lemma unat_sub_le:
  fixes n :: "'a::len word"
  shows "unat n \<le> unat r \<Longrightarrow> unat (r - n) = unat r - unat n"
  by (simp add: unat_sub word_le_nat_alt)

subsection \<open>What the loops establish when they end\<close>

lemma write_buffer_post:
  assumes "write_buffer os fildes pos buffer remaining ntotal s = Some y"
  shows "inner_post os fildes pos buffer remaining ntotal s y"
proof (rule write_buffer.raw_induct [where P = inner_post, OF _ assms], goal_cases)
  case (1 wb os fildes pos buffer remaining ntotal s y)
  obtain nwritten s1 where cw: "call_write os fildes buffer remaining s = (nwritten, s1)"
    by (cases "call_write os fildes buffer remaining s")
  note log1 = io_calls_call_write [OF cw]
  show ?case
  proof (cases "sint nwritten < 0")
    case True
    obtain q s2 where cl: "call_lseek os fildes pos SEEK_SET s1 = (q, s2)"
      by (cases "call_lseek os fildes pos SEEK_SET s1")
    note log2 = io_calls_call_lseek [OF cl]
    from 1(2) True have y: "y = (Inl (word_of_int ERROR), set_errno_io (get_errno s1) s2)"
      by (simp add: cw cl Let_def)
    have "io_calls (set_errno_io (get_errno s1) s2) =
        io_calls s @ [Write fildes buffer (unat remaining) (sint nwritten) (errno s1),
                      Lseek fildes pos SEEK_SET q]"
      using log1 log2 by (simp add: set_errno_io_def)
    moreover have "errno (set_errno_io (get_errno s1) s2) = errno s1"
      by (simp add: set_errno_io_def get_errno_def)
    moreover have "dev (set_errno_io (get_errno s1) s2) =
        dev (snd (os_lseek os fildes pos SEEK_SET s1))"
      using log2 by (simp add: set_errno_io_def)
    ultimately show ?thesis
      using True restored_append [of fildes pos "errno s1" "[]" buffer "unat remaining"
          "sint nwritten" q]
      by (auto simp add: inner_post_def y)
  next
    case nonneg: False
    have n_nat: "nat (sint nwritten) = unat nwritten"
      using nonneg by (simp add: nat_sint_nonneg)
    show ?thesis
    proof (cases "0 < remaining - nwritten")
      case False
      then have rem: "nwritten = remaining"
        by (simp add: word_greater_zero_iff)
      from 1(2) nonneg False have y: "y = (Inr (ntotal + nwritten), s1)"
        by (simp add: cw Let_def)
      show ?thesis
        using log1 nonneg n_nat by (simp add: inner_post_def y rem)
    next
      case True
      from 1(2) nonneg True have rec:
        "wb os fildes pos (buffer + unat nwritten) (remaining - nwritten) (ntotal + nwritten) s1 = Some y"
        by (simp add: cw Let_def)
      have ih: "inner_post os fildes pos (buffer + unat nwritten) (remaining - nwritten)
          (ntotal + nwritten) s1 y"
        by (rule 1(1) [OF rec])
      obtain res s' where y: "y = (res, s')"
        by (cases y)
      from ih obtain cs where cs: "io_calls s' = io_calls s1 @ cs"
        and res: "case res of
               Inr nt \<Rightarrow>
                 nt = (ntotal + nwritten) + (remaining - nwritten) \<and> \<not> list_ex failed_write cs \<and>
                 (list_all ok_write cs \<longrightarrow>
                    written cs = [buffer + unat nwritten ..<
                                  buffer + unat nwritten + unat (remaining - nwritten)])
             | Inl r \<Rightarrow>
                 r = word_of_int ERROR \<and> restored fildes pos (errno s') cs \<and>
                 (\<exists>sf. dev s' = dev (snd (os_lseek os fildes pos SEEK_SET sf)))"
        by (auto simp add: inner_post_def y)
      let ?w = "Write fildes buffer (unat remaining) (sint nwritten) (errno s1)"
      have log: "io_calls s' = io_calls s @ ?w # cs"
        using cs log1 by simp
      show ?thesis
      proof (cases res)
        case (Inl r)
        with res have "r = word_of_int ERROR" "restored fildes pos (errno s') (?w # cs)"
          "\<exists>sf. dev s' = dev (snd (os_lseek os fildes pos SEEK_SET sf))"
          using nonneg by (simp_all add: restored_Cons)
        then show ?thesis
          using log by (auto simp add: inner_post_def y Inl)
      next
        case (Inr nt)
        with res have nt: "nt = ntotal + remaining" and nf: "\<not> list_ex failed_write cs"
          and wr: "list_all ok_write cs \<longrightarrow>
                    written cs = [buffer + unat nwritten ..<
                                  buffer + unat nwritten + unat (remaining - nwritten)]"
          by simp_all
        have "written (?w # cs) = [buffer ..< buffer + unat remaining]"
          if ok: "list_all ok_write (?w # cs)"
        proof -
          from ok have le: "unat nwritten \<le> unat remaining"
            using n_nat by simp
          from ok wr have "written cs = [buffer + unat nwritten ..<
                                  buffer + unat nwritten + unat (remaining - nwritten)]"
            by simp
          then have "written (?w # cs) =
              [buffer ..< buffer + unat nwritten] @
              [buffer + unat nwritten ..< buffer + unat nwritten + (unat remaining - unat nwritten)]"
            by (simp add: n_nat unat_sub_le [OF le])
          also have "\<dots> = [buffer ..< buffer + unat remaining]"
            using le upt_add_eq_append [of buffer "buffer + unat nwritten"
                "unat remaining - unat nwritten"]
            by simp
          finally show ?thesis .
        qed
        then show ?thesis
          using log nt nf nonneg by (auto simp add: inner_post_def y Inr list_ex_iff)
      qed
    qed
  qed
qed


lemma restored_failed: "restored fildes pos e cs \<Longrightarrow> list_ex failed_write cs"
  by (cases "rev cs" rule: rev_cases)
    (auto simp add: restored_def list_ex_iff split: list.splits io_call.splits
      dest!: arg_cong [where f = rev] arg_cong [where f = set])

lemma restored_prepend:
  "restored fildes pos e cs \<Longrightarrow> \<not> list_ex failed_write ws \<Longrightarrow> restored fildes pos e (ws @ cs)"
  by (induction ws) (simp_all add: restored_Cons)

lemma ok_not_failed: "ok_write c \<Longrightarrow> \<not> failed_write c"
  by (cases c) simp_all

lemma written_append [simp]: "written (xs @ ys) = written xs @ written ys"
  by (induction xs rule: written.induct) simp_all

lemma areas_step:
  "i < n \<Longrightarrow> areas iov i n = area (iov i) @ areas iov (Suc i) n"
  by (simp add: areas_def upt_conv_Cons)

lemma sum_len_step:
  "i < n \<Longrightarrow> sum_len iov i n = iov_len (iov i) + sum_len iov (Suc i) n"
  by (simp add: sum_len_def upt_conv_Cons)

lemma writev_loop_done [simp]:
  "\<not> int i < iovcnt \<Longrightarrow> writev_loop os fildes iov iovcnt pos i ntotal s = Some (ntotal, s)"
  by (subst writev_loop.simps) simp

lemma writev_loop_skip [simp]:
  "int i < iovcnt \<Longrightarrow> \<not> 0 < iov_len (iov i) \<Longrightarrow>
     writev_loop os fildes iov iovcnt pos i ntotal s =
     writev_loop os fildes iov iovcnt pos (i + 1) ntotal s"
  by (subst writev_loop.simps) simp

lemma writev_loop_diverges [simp]:
  "int i < iovcnt \<Longrightarrow> 0 < iov_len (iov i) \<Longrightarrow>
     write_buffer os fildes pos (iov_base (iov i)) (iov_len (iov i)) ntotal s = None \<Longrightarrow>
     writev_loop os fildes iov iovcnt pos i ntotal s = None"
  by (subst writev_loop.simps) simp

lemma writev_loop_failed [simp]:
  "int i < iovcnt \<Longrightarrow> 0 < iov_len (iov i) \<Longrightarrow>
     write_buffer os fildes pos (iov_base (iov i)) (iov_len (iov i)) ntotal s = Some (Inl r, s') \<Longrightarrow>
     writev_loop os fildes iov iovcnt pos i ntotal s = Some (r, s')"
  by (subst writev_loop.simps) simp

lemma writev_loop_next [simp]:
  "int i < iovcnt \<Longrightarrow> 0 < iov_len (iov i) \<Longrightarrow>
     write_buffer os fildes pos (iov_base (iov i)) (iov_len (iov i)) ntotal s = Some (Inr nt, s') \<Longrightarrow>
     writev_loop os fildes iov iovcnt pos i ntotal s =
     writev_loop os fildes iov iovcnt pos (i + 1) nt s'"
  by (subst writev_loop.simps) simp

lemma writev_loop_post:
  "writev_loop os fildes iov iovcnt pos i ntotal s = Some (r, s') \<Longrightarrow>
     \<exists>cs. io_calls s' = io_calls s @ cs \<and>
       (r = ntotal + sum_len iov i (nat iovcnt) \<and> \<not> list_ex failed_write cs \<and>
          (list_all ok_write cs \<longrightarrow> written cs = areas iov i (nat iovcnt))
        \<or> r = word_of_int ERROR \<and> restored fildes pos (errno s') cs \<and>
          (\<exists>sf. dev s' = dev (snd (os_lseek os fildes pos SEEK_SET sf))))"
proof (induction os fildes iov iovcnt pos i ntotal s arbitrary: r s' rule: writev_loop.induct)
  case (1 os fildes iov iovcnt pos i ntotal s)
  show ?case
  proof (cases "int i < iovcnt")
    case False
    with "1.prems" have "r = ntotal" "s' = s"
      by simp_all
    moreover from False have "sum_len iov i (nat iovcnt) = 0" "areas iov i (nat iovcnt) = []"
      by (simp_all add: sum_len_def areas_def)
    ultimately show ?thesis
      by simp
  next
    case lt: True
    then have lt': "i < nat iovcnt"
      by simp
    show ?thesis
    proof (cases "0 < iov_len (iov i)")
      case False
      then have z: "iov_len (iov i) = 0"
        by (simp add: word_greater_zero_iff)
      from "1.prems" lt False
      have "writev_loop os fildes iov iovcnt pos (i + 1) ntotal s = Some (r, s')"
        by simp
      from "1.IH"(2) [OF lt False this] show ?thesis
        by (simp add: sum_len_step [OF lt'] areas_step [OF lt'] z area_def)
    next
      case pos_len: True
      from "1.prems" lt pos_len obtain res s1 where
        wb: "write_buffer os fildes pos (iov_base (iov i)) (iov_len (iov i)) ntotal s = Some (res, s1)"
        by (cases "write_buffer os fildes pos (iov_base (iov i)) (iov_len (iov i)) ntotal s") auto
      from write_buffer_post [OF wb] obtain cs1 where
        log1: "io_calls s1 = io_calls s @ cs1"
        and res: "case res of
               Inr nt \<Rightarrow>
                 nt = ntotal + iov_len (iov i) \<and> \<not> list_ex failed_write cs1 \<and>
                 (list_all ok_write cs1 \<longrightarrow>
                    written cs1 = [iov_base (iov i) ..< iov_base (iov i) + unat (iov_len (iov i))])
             | Inl r \<Rightarrow>
                 r = word_of_int ERROR \<and> restored fildes pos (errno s1) cs1 \<and>
                 (\<exists>sf. dev s1 = dev (snd (os_lseek os fildes pos SEEK_SET sf)))"
        by (auto simp add: inner_post_def)
      show ?thesis
      proof (cases res)
        case (Inl r0)
        with "1.prems" lt pos_len wb have "r = r0" "s' = s1"
          by simp_all
        with res Inl log1 show ?thesis
          by auto
      next
        case (Inr nt)
        with "1.prems" lt pos_len wb
        have rec: "writev_loop os fildes iov iovcnt pos (i + 1) nt s1 = Some (r, s')"
          by simp
        from "1.IH"(1) [OF lt pos_len wb _ Inr rec] obtain cs2 where
          log2: "io_calls s' = io_calls s1 @ cs2"
          and post: "r = nt + sum_len iov (i + 1) (nat iovcnt) \<and> \<not> list_ex failed_write cs2 \<and>
              (list_all ok_write cs2 \<longrightarrow> written cs2 = areas iov (i + 1) (nat iovcnt))
            \<or> r = word_of_int ERROR \<and> restored fildes pos (errno s') cs2 \<and>
              (\<exists>sf. dev s' = dev (snd (os_lseek os fildes pos SEEK_SET sf)))"
          by auto
        from res Inr have nt: "nt = ntotal + iov_len (iov i)"
          and nf1: "\<not> list_ex failed_write cs1"
          and wr1: "list_all ok_write cs1 \<longrightarrow> written cs1 = area (iov i)"
          by (simp_all add: area_def)
        have log: "io_calls s' = io_calls s @ (cs1 @ cs2)"
          using log1 log2 by simp
        from post show ?thesis
        proof
          assume a: "r = nt + sum_len iov (i + 1) (nat iovcnt) \<and> \<not> list_ex failed_write cs2 \<and>
              (list_all ok_write cs2 \<longrightarrow> written cs2 = areas iov (i + 1) (nat iovcnt))"
          then have "r = ntotal + sum_len iov i (nat iovcnt)"
            by (simp add: nt sum_len_step [OF lt'] add.assoc)
          moreover have "\<not> list_ex failed_write (cs1 @ cs2)"
            using a nf1 by (auto simp add: list_ex_iff)
          moreover have "list_all ok_write (cs1 @ cs2) \<longrightarrow>
              written (cs1 @ cs2) = areas iov i (nat iovcnt)"
            using a wr1 by (simp add: areas_step [OF lt'])
          ultimately show ?thesis
            using log by blast
        next
          assume b: "r = word_of_int ERROR \<and> restored fildes pos (errno s') cs2 \<and>
              (\<exists>sf. dev s' = dev (snd (os_lseek os fildes pos SEEK_SET sf)))"
          then have "restored fildes pos (errno s') (cs1 @ cs2)"
            using nf1 by (simp add: restored_prepend)
          with b log show ?thesis
            by blast
        qed
      qed
    qed
  qed
qed


lemma call_write_result:
  "call_write os fildes buffer nbytes s = (n, s1) \<Longrightarrow>
     n = fst (os_write os fildes buffer nbytes s) \<and>
     errno s1 = errno (snd (os_write os fildes buffer nbytes s))"
  by (auto simp add: call_write_def split: prod.splits)

lemma new_io_append [simp]: "io_calls s' = io_calls s @ cs \<Longrightarrow> new_io s s' = cs"
  by (simp add: new_io_def)

lemma writev_post:
  assumes "writev os fildes iov iovcnt s = Some (r, s')"
  shows "\<exists>cs. new_io s s' = Lseek fildes 0 SEEK_CUR (fst (os_lseek os fildes 0 SEEK_CUR s)) # cs \<and>
      (if fst (os_lseek os fildes 0 SEEK_CUR s) = - 1 then r = word_of_int ERROR \<and> cs = []
       else
         r = sum_len iov 0 (nat iovcnt) \<and> \<not> list_ex failed_write cs \<and>
           (list_all ok_write cs \<longrightarrow> written cs = areas iov 0 (nat iovcnt))
         \<or> r = word_of_int ERROR \<and>
           restored fildes (fst (os_lseek os fildes 0 SEEK_CUR s)) (errno s') cs \<and>
           (\<exists>sf. dev s' =
              dev (snd (os_lseek os fildes (fst (os_lseek os fildes 0 SEEK_CUR s)) SEEK_SET sf))))"
proof -
  obtain p s1 where cl: "call_lseek os fildes 0 SEEK_CUR s = (p, s1)"
    by (cases "call_lseek os fildes 0 SEEK_CUR s")
  note l = io_calls_call_lseek [OF cl]
  then have p: "p = fst (os_lseek os fildes 0 SEEK_CUR s)"
    and log1: "io_calls s1 = io_calls s @ [Lseek fildes 0 SEEK_CUR p]"
    by simp_all
  show ?thesis
  proof (cases "p = - 1")
    case True
    with assms have "r = word_of_int ERROR" "s' = s1"
      by (simp_all add: writev_def cl)
    with True log1 show ?thesis
      by (simp add: p [symmetric])
  next
    case False
    with assms have "writev_loop os fildes iov iovcnt p 0 0 s1 = Some (r, s')"
      by (simp add: writev_def cl)
    from writev_loop_post [OF this] obtain cs where
      log2: "io_calls s' = io_calls s1 @ cs"
      and post: "r = 0 + sum_len iov 0 (nat iovcnt) \<and> \<not> list_ex failed_write cs \<and>
          (list_all ok_write cs \<longrightarrow> written cs = areas iov 0 (nat iovcnt))
        \<or> r = word_of_int ERROR \<and> restored fildes p (errno s') cs \<and>
          (\<exists>sf. dev s' = dev (snd (os_lseek os fildes p SEEK_SET sf)))"
      by blast
    have "io_calls s' = io_calls s @ Lseek fildes 0 SEEK_CUR p # cs"
      using log1 log2 by simp
    then have "new_io s s' = Lseek fildes 0 SEEK_CUR p # cs"
      by (rule new_io_append)
    with post False show ?thesis
      by (simp add: p [symmetric])
  qed
qed

subsection \<open>The loops end when every write fails or takes a byte\<close>

lemma write_buffer_returns:
  assumes live: "\<And>buf rem s0. rem \<noteq> 0 \<Longrightarrow>
      (sint (fst (os_write os fildes buf rem s0)) < 0 \<or>
       0 < sint (fst (os_write os fildes buf rem s0)) \<and>
       unat (fst (os_write os fildes buf rem s0)) \<le> unat rem) \<and>
      Q (Write fildes buf (unat rem) (sint (fst (os_write os fildes buf rem s0)))
           (errno (snd (os_write os fildes buf rem s0))))"
    and lq: "\<And>off wh q. Q (Lseek fildes off wh q)"
    and nz: "remaining \<noteq> 0"
  shows "\<exists>res s' cs. write_buffer os fildes pos buffer remaining ntotal s = Some (res, s') \<and>
      io_calls s' = io_calls s @ cs \<and> list_all Q cs"
  using nz
proof (induction "unat remaining" arbitrary: remaining buffer ntotal s rule: less_induct)
  case less
  obtain n s1 where cw: "call_write os fildes buffer remaining s = (n, s1)"
    by (cases "call_write os fildes buffer remaining s")
  note log1 = io_calls_call_write [OF cw]
  note n = call_write_result [OF cw]
  from live [OF less.prems, of buffer s] n
  have alt: "sint n < 0 \<or> 0 < sint n \<and> unat n \<le> unat remaining"
    and q: "Q (Write fildes buffer (unat remaining) (sint n) (errno s1))"
    by simp_all
  have unfold: "write_buffer os fildes pos buffer remaining ntotal s =
      (if sint n < 0 then
         Some (Inl (word_of_int ERROR),
               set_errno_io (get_errno s1) (snd (call_lseek os fildes pos SEEK_SET s1)))
       else if 0 < remaining - n then
         write_buffer os fildes pos (buffer + unat n) (remaining - n) (ntotal + n) s1
       else Some (Inr (ntotal + n), s1))"
    by (subst write_buffer.simps) (simp add: cw Let_def)
  show ?case
  proof (cases "sint n < 0")
    case True
    obtain r s2 where cl: "call_lseek os fildes pos SEEK_SET s1 = (r, s2)"
      by (cases "call_lseek os fildes pos SEEK_SET s1")
    have "io_calls (set_errno_io (get_errno s1) s2) =
        io_calls s @ [Write fildes buffer (unat remaining) (sint n) (errno s1),
                      Lseek fildes pos SEEK_SET r]"
      using log1 io_calls_call_lseek [OF cl] by (simp add: set_errno_io_def)
    then show ?thesis
      using True q lq by (simp add: unfold cl)
  next
    case nonneg: False
    with alt have pos_n: "0 < sint n" and le: "unat n \<le> unat remaining"
      by simp_all
    show ?thesis
    proof (cases "0 < remaining - n")
      case False
      then show ?thesis
        using nonneg q log1 by (simp add: unfold)
    next
      case True
      have "0 < unat n"
        using pos_n nat_sint_nonneg [of n] by simp
      then have smaller: "unat (remaining - n) < unat remaining"
        using le by (simp add: unat_sub_le)
      from True have "remaining - n \<noteq> 0"
        by (simp add: word_greater_zero_iff)
      from less.hyps [OF smaller this, of "buffer + unat n" "ntotal + n" s1]
      obtain res s' cs where
        "write_buffer os fildes pos (buffer + unat n) (remaining - n) (ntotal + n) s1 = Some (res, s')"
        "io_calls s' = io_calls s1 @ cs" "list_all Q cs"
        by blast
      then show ?thesis
        using nonneg True q log1 by (simp add: unfold)
    qed
  qed
qed

lemma writev_loop_returns:
  assumes live: "\<And>buf rem s0. rem \<noteq> 0 \<Longrightarrow>
      (sint (fst (os_write os fildes buf rem s0)) < 0 \<or>
       0 < sint (fst (os_write os fildes buf rem s0)) \<and>
       unat (fst (os_write os fildes buf rem s0)) \<le> unat rem) \<and>
      Q (Write fildes buf (unat rem) (sint (fst (os_write os fildes buf rem s0)))
           (errno (snd (os_write os fildes buf rem s0))))"
    and lq: "\<And>off wh q. Q (Lseek fildes off wh q)"
  shows "\<exists>r s' cs. writev_loop os fildes iov iovcnt pos i ntotal s = Some (r, s') \<and>
      io_calls s' = io_calls s @ cs \<and> list_all Q cs"
  using live lq
proof (induction os fildes iov iovcnt pos i ntotal s rule: writev_loop.induct)
  case (1 os fildes iov iovcnt pos i ntotal s)
  note live' = "1.prems"(1)
  note lq' = "1.prems"(2)
  show ?case
  proof (cases "int i < iovcnt")
    case False
    then show ?thesis
      by simp
  next
    case lt: True
    show ?thesis
    proof (cases "0 < iov_len (iov i)")
      case False
      from "1.IH"(2) [OF lt False live' lq'] lt False show ?thesis
        by simp
    next
      case pos_len: True
      then have "iov_len (iov i) \<noteq> 0"
        by (simp add: word_greater_zero_iff)
      from write_buffer_returns [where Q = Q, OF live' lq' this]
      obtain res s1 cs1 where
        wb: "write_buffer os fildes pos (iov_base (iov i)) (iov_len (iov i)) ntotal s = Some (res, s1)"
        and log1: "io_calls s1 = io_calls s @ cs1" and q1: "list_all Q cs1"
        by blast
      show ?thesis
      proof (cases res)
        case (Inl r0)
        then show ?thesis
          using lt pos_len wb log1 q1 by simp
      next
        case (Inr nt)
        from "1.IH"(1) [OF lt pos_len wb _ Inr live' lq'] obtain r s' cs2 where
          "writev_loop os fildes iov iovcnt pos (i + 1) nt s1 = Some (r, s')"
          "io_calls s' = io_calls s1 @ cs2" "list_all Q cs2"
          by auto
        then show ?thesis
          using lt pos_len wb log1 q1 Inr by simp
      qed
    qed
  qed
qed

lemma writev_returns:
  assumes live: "\<And>buf rem s0. rem \<noteq> 0 \<Longrightarrow>
      (sint (fst (os_write os fildes buf rem s0)) < 0 \<or>
       0 < sint (fst (os_write os fildes buf rem s0)) \<and>
       unat (fst (os_write os fildes buf rem s0)) \<le> unat rem) \<and>
      Q (Write fildes buf (unat rem) (sint (fst (os_write os fildes buf rem s0)))
           (errno (snd (os_write os fildes buf rem s0))))"
    and lq: "\<And>off wh q. Q (Lseek fildes off wh q)"
  shows "\<exists>r s'. writev os fildes iov iovcnt s = Some (r, s') \<and> list_all Q (new_io s s')"
proof -
  obtain p s1 where cl: "call_lseek os fildes 0 SEEK_CUR s = (p, s1)"
    by (cases "call_lseek os fildes 0 SEEK_CUR s")
  from io_calls_call_lseek [OF cl]
  have log1: "io_calls s1 = io_calls s @ [Lseek fildes 0 SEEK_CUR p]"
    by simp
  show ?thesis
  proof (cases "p = - 1")
    case True
    then show ?thesis
      using log1 lq by (simp add: writev_def cl)
  next
    case False
    from writev_loop_returns [where Q = Q, OF live lq, of iov iovcnt p 0 0 s1]
    obtain r s' cs where "writev_loop os fildes iov iovcnt p 0 0 s1 = Some (r, s')"
      "io_calls s' = io_calls s1 @ cs" "list_all Q cs"
      by blast
    then show ?thesis
      using False log1 lq by (simp add: writev_def cl)
  qed
qed

subsection \<open>The total as a word and as a number\<close>

lemma sum_list_of_nat:
  "sum_list (map f xs) = (word_of_nat (sum_list (map (\<lambda>x. unat (f x)) xs)) :: 'a::len word)"
  by (induction xs) simp_all

lemma sum_len_total: "sum_len iov i n = word_of_nat (total_len iov i n)"
  by (simp add: sum_len_def total_len_def sum_list_of_nat)

lemma sint_small:
  fixes t :: "'a::len word"
  assumes "unat t < 2 ^ (LENGTH('a) - 1)"
  shows "sint t = int (unat t)"
proof -
  have "int (unat t) < int (2 ^ (LENGTH('a) - 1))"
    using assms by (simp only: of_nat_less_iff)
  also have "int (2 ^ (LENGTH('a) - 1)) = 2 ^ (LENGTH('a) - 1)"
    by simp
  finally have "uint t < 2 ^ (LENGTH('a) - 1)"
    by (simp only: uint_nat [symmetric])
  moreover have "- (2 ^ (LENGTH('a) - 1)) \<le> (0::int)"
    by simp
  then have "- (2 ^ (LENGTH('a) - 1)) \<le> uint t"
    by (rule order_trans) simp
  ultimately have "signed_take_bit (LENGTH('a) - 1) (uint t) = uint t"
    by (simp add: signed_take_bit_int_eq_self)
  then show ?thesis
    by (simp add: sint_uint)
qed

lemma sint_sum_len:
  fixes iov :: "nat \<Rightarrow> 'a::len iovec"
  assumes "total_len iov i n < 2 ^ (LENGTH('a) - 1)"
  shows "sint (sum_len iov i n) = int (total_len iov i n)"
proof -
  have "(2::nat) ^ (LENGTH('a) - 1) \<le> 2 ^ LENGTH('a)"
    by (rule power_increasing) simp_all
  with assms have "total_len iov i n < 2 ^ LENGTH('a)"
    by (rule less_le_trans)
  then have u: "unat (sum_len iov i n) = total_len iov i n"
    by (simp add: sum_len_total unat_of_nat)
  with assms have "unat (sum_len iov i n) < 2 ^ (LENGTH('a) - 1)"
    by simp
  from sint_small [OF this] u show ?thesis
    by simp
qed

subsection \<open>Empty buffers\<close>

lemma writev_loop_all_empty:
  "(\<forall>j. i \<le> j \<and> int j < iovcnt \<longrightarrow> iov_len (iov j) = 0) \<Longrightarrow>
     writev_loop os fildes iov iovcnt pos i ntotal s = Some (ntotal, s)"
proof (induction os fildes iov iovcnt pos i ntotal s rule: writev_loop.induct)
  case (1 os fildes iov iovcnt pos i ntotal s)
  show ?case
  proof (cases "int i < iovcnt")
    case False
    then show ?thesis
      by simp
  next
    case True
    with "1.prems" have z: "iov_len (iov i) = 0"
      by simp
    then have nz: "\<not> 0 < iov_len (iov i)"
      by simp
    have "writev_loop os fildes iov iovcnt pos (i + 1) ntotal s = Some (ntotal, s)"
      by (rule "1.IH"(2) [OF True nz]) (use "1.prems" in auto)
    then show ?thesis
      using True nz by simp
  qed
qed

subsection \<open>All buffers written\<close>

text \<open>
  C9 (as amended). Suppose the \<open>lseek\<close> at entry does not fail. If \<open>writev\<close> returns
  and every \<open>write\<close> it made took at least one byte and no more than asked, then the bytes
  taken are exactly the buffer areas, each complete and in the order of the array, and the
  value returned is the sum of the \<open>iov_len\<close> values as a word: the sum itself as long as it
  does not exceed \<open>SSIZE_MAX\<close>. If \<open>write\<close> always behaves so, \<open>writev\<close> does return.
  If every \<open>iov_len\<close> is 0 it returns 0 and the \<open>lseek\<close> at entry is the only call made.
\<close>

theorem writev_writes_all:
  fixes os :: "('a::len, 'f) posix"
  assumes seek: "fst (os_lseek os fildes 0 SEEK_CUR s) \<noteq> - 1"
  shows "(\<forall>r s'. writev os fildes iov iovcnt s = Some (r, s') \<and> list_all ok_write (new_io s s') \<longrightarrow>
          r = word_of_nat (total_len iov 0 (nat iovcnt)) \<and>
          (total_len iov 0 (nat iovcnt) < 2 ^ (LENGTH('a) - 1) \<longrightarrow>
             sint r = int (total_len iov 0 (nat iovcnt))) \<and>
          written (new_io s s') = areas iov 0 (nat iovcnt))
    \<and> ((\<forall>buf rem s0. rem \<noteq> 0 \<longrightarrow>
           0 < sint (fst (os_write os fildes buf rem s0)) \<and>
           unat (fst (os_write os fildes buf rem s0)) \<le> unat rem) \<longrightarrow>
        (\<exists>r s'. writev os fildes iov iovcnt s = Some (r, s') \<and> list_all ok_write (new_io s s')))
    \<and> ((\<forall>j. int j < iovcnt \<longrightarrow> iov_len (iov j) = 0) \<longrightarrow>
        writev os fildes iov iovcnt s = Some (0, snd (call_lseek os fildes 0 SEEK_CUR s)) \<and>
        new_io s (snd (call_lseek os fildes 0 SEEK_CUR s)) =
          [Lseek fildes 0 SEEK_CUR (fst (os_lseek os fildes 0 SEEK_CUR s))] \<and>
        dev (snd (call_lseek os fildes 0 SEEK_CUR s)) =
          dev (snd (os_lseek os fildes 0 SEEK_CUR s)))"
proof (intro conjI allI impI)
  fix r s'
  assume a: "writev os fildes iov iovcnt s = Some (r, s') \<and> list_all ok_write (new_io s s')"
  then have run: "writev os fildes iov iovcnt s = Some (r, s')"
    and ok: "list_all ok_write (new_io s s')"
    by simp_all
  from writev_post [OF run] seek obtain cs where
    log: "new_io s s' = Lseek fildes 0 SEEK_CUR (fst (os_lseek os fildes 0 SEEK_CUR s)) # cs"
    and post: "r = sum_len iov 0 (nat iovcnt) \<and> \<not> list_ex failed_write cs \<and>
           (list_all ok_write cs \<longrightarrow> written cs = areas iov 0 (nat iovcnt))
         \<or> r = word_of_int ERROR \<and>
           restored fildes (fst (os_lseek os fildes 0 SEEK_CUR s)) (errno s') cs \<and>
           (\<exists>sf. dev s' =
              dev (snd (os_lseek os fildes (fst (os_lseek os fildes 0 SEEK_CUR s)) SEEK_SET sf)))"
    by auto
  from ok log have okcs: "list_all ok_write cs"
    by simp
  then have "\<not> list_ex failed_write cs"
    by (auto simp add: list_ex_iff list_all_iff ok_not_failed)
  with post restored_failed have good: "r = sum_len iov 0 (nat iovcnt)"
    "written cs = areas iov 0 (nat iovcnt)"
    using okcs by blast+
  show "r = word_of_nat (total_len iov 0 (nat iovcnt))"
    by (simp add: good sum_len_total)
  show "written (new_io s s') = areas iov 0 (nat iovcnt)"
    by (simp add: log good)
  show "sint r = int (total_len iov 0 (nat iovcnt))"
    if "total_len iov 0 (nat iovcnt) < 2 ^ (LENGTH('a) - 1)"
    using that by (simp add: good sint_sum_len)
next
  assume progress: "\<forall>buf rem s0. rem \<noteq> 0 \<longrightarrow>
           0 < sint (fst (os_write os fildes buf rem s0)) \<and>
           unat (fst (os_write os fildes buf rem s0)) \<le> unat rem"
  show "\<exists>r s'. writev os fildes iov iovcnt s = Some (r, s') \<and> list_all ok_write (new_io s s')"
  proof (rule writev_returns)
    fix buf s0 and rem :: "'a word"
    assume "rem \<noteq> 0"
    with progress have p: "0 < sint (fst (os_write os fildes buf rem s0))"
      "unat (fst (os_write os fildes buf rem s0)) \<le> unat rem"
      by simp_all
    then have "nat (sint (fst (os_write os fildes buf rem s0))) \<le> unat rem"
      by (simp add: nat_sint_nonneg)
    with p show "(sint (fst (os_write os fildes buf rem s0)) < 0 \<or>
       0 < sint (fst (os_write os fildes buf rem s0)) \<and>
       unat (fst (os_write os fildes buf rem s0)) \<le> unat rem) \<and>
      ok_write (Write fildes buf (unat rem) (sint (fst (os_write os fildes buf rem s0)))
           (errno (snd (os_write os fildes buf rem s0))))"
      by simp
  next
    fix off wh q
    show "ok_write (Lseek fildes off wh q)"
      by simp
  qed
next
  assume empty: "\<forall>j. int j < iovcnt \<longrightarrow> iov_len (iov j) = 0"
  obtain p s1 where cl: "call_lseek os fildes 0 SEEK_CUR s = (p, s1)"
    by (cases "call_lseek os fildes 0 SEEK_CUR s")
  note l = io_calls_call_lseek [OF cl]
  from l seek have "p \<noteq> - 1"
    by simp
  moreover have "writev_loop os fildes iov iovcnt p 0 0 s1 = Some (0, s1)"
    by (rule writev_loop_all_empty) (use empty in simp)
  ultimately show "writev os fildes iov iovcnt s = Some (0, snd (call_lseek os fildes 0 SEEK_CUR s))"
    by (simp add: writev_def cl)
  from l show "new_io s (snd (call_lseek os fildes 0 SEEK_CUR s)) =
          [Lseek fildes 0 SEEK_CUR (fst (os_lseek os fildes 0 SEEK_CUR s))]"
    by (simp add: cl)
  from l show "dev (snd (call_lseek os fildes 0 SEEK_CUR s)) =
          dev (snd (os_lseek os fildes 0 SEEK_CUR s))"
    by (simp add: cl)
qed

subsection \<open>A failing write\<close>



subsection \<open>The concrete file\<close>

lemma ex_small_word:
  "k \<le> 2 \<Longrightarrow> unat (word_of_nat k :: 16 word) = k \<and> sint (word_of_nat k :: 16 word) = int k"
proof -
  assume k: "k \<le> 2"
  then have u: "unat (word_of_nat k :: 16 word) = k"
    by (simp add: unat_of_nat)
  from k have "unat (word_of_nat k :: 16 word) < 2 ^ (LENGTH(16) - 1)"
    by (simp add: u)
  from sint_small [OF this] u show ?thesis
    by simp
qed

lemma ex_posix_progress:
  assumes "rem \<noteq> 0"
  shows "0 < sint (fst (os_write (ex_posix seekable 2 False) fildes buf rem s0)) \<and>
         unat (fst (os_write (ex_posix seekable 2 False) fildes buf rem s0)) \<le> unat rem"
proof -
  from assms have "0 < unat rem"
    by (simp add: unat_gt_0)
  then have "0 < min (unat rem) 2" "min (unat rem) 2 \<le> unat rem"
    by simp_all
  with ex_small_word [of "min (unat rem) 2"] show ?thesis
    by (simp add: ex_posix_def Let_def)
qed

lemma ex_iov_totals:
  "total_len ex_iov 0 3 = 6" "areas ex_iov 0 3 = [100, 101, 102, 103, 300, 301]"
  "total_len ex_iov_big 0 2 = 40000"
  by (simp_all add: total_len_def areas_def area_def ex_iov_def ex_iov_big_def upt_rec)


theorem writev_writes_all_witness:
  "fst (os_lseek (ex_posix True 2 False) 1 0 SEEK_CUR (ex_io 0)) \<noteq> - 1
   \<and> total_len ex_iov 0 (nat 3) < 2 ^ (LENGTH(16) - 1)
   \<and> (\<exists>r s'. writev (ex_posix True 2 False) 1 ex_iov 3 (ex_io 0) = Some (r, s') \<and>
         list_all ok_write (new_io (ex_io 0) s') \<and>
         sint r = 6 \<and>
         written (new_io (ex_io 0) s') = [100, 101, 102, 103, 300, 301])"
proof -
  have seek: "fst (os_lseek (ex_posix True 2 False) 1 0 SEEK_CUR (ex_io 0)) \<noteq> - 1"
    by (simp add: ex_posix_def ex_io_def)
  have progress: "\<forall>buf rem s0. rem \<noteq> 0 \<longrightarrow>
         0 < sint (fst (os_write (ex_posix True 2 False) 1 buf rem s0)) \<and>
         unat (fst (os_write (ex_posix True 2 False) 1 buf rem s0)) \<le> unat rem"
    by (simp add: ex_posix_progress)
  have bound: "total_len ex_iov 0 (nat 3) < 2 ^ (LENGTH(16) - 1)"
    by (simp add: ex_iov_totals)
  note t = writev_writes_all [OF seek, where iov = ex_iov and iovcnt = 3]
  from t progress obtain r s' where
    run: "writev (ex_posix True 2 False) 1 ex_iov 3 (ex_io 0) = Some (r, s')"
    and ok: "list_all ok_write (new_io (ex_io 0) s')"
    by blast
  from t run ok bound have "sint r = int (total_len ex_iov 0 (nat 3))"
    "written (new_io (ex_io 0) s') = areas ex_iov 0 (nat 3)"
    by blast+
  then have "sint r = 6" "written (new_io (ex_io 0) s') = [100, 101, 102, 103, 300, 301]"
    by (simp_all add: ex_iov_totals)
  with seek bound run ok show ?thesis
    by blast
qed

lemma write_buffer_stalls:
  assumes "write_buffer os fildes pos buffer remaining ntotal s = Some y"
  shows "\<not> (os = ex_posix True 0 False \<and> remaining \<noteq> 0)"
proof (rule write_buffer.raw_induct
    [where P = "\<lambda>os fildes pos buffer remaining ntotal s y.
        \<not> (os = ex_posix True 0 False \<and> remaining \<noteq> 0)", OF _ assms], goal_cases)
  case (1 wb os fildes pos buffer remaining ntotal s y)
  show ?case
  proof
    assume a: "os = ex_posix True 0 False \<and> remaining \<noteq> 0"
    then have "call_write os fildes buffer remaining s =
        (0, s\<lparr>io_calls := io_calls s @ [Write fildes buffer (unat remaining) 0 (errno s)]\<rparr>)"
      by (simp add: call_write_def ex_posix_def)
    with 1(2) a have "wb os fildes pos buffer remaining ntotal
        (s\<lparr>io_calls := io_calls s @ [Write fildes buffer (unat remaining) 0 (errno s)]\<rparr>) = Some y"
      by (simp add: Let_def word_greater_zero_iff)
    from 1(1) [OF this] a show False
      by simp
  qed
qed

text \<open>
  Three runs in which no \<open>write\<close> fails and the sum is not returned. On a descriptor
  that cannot seek, \<open>writev\<close> returns -1 before any \<open>write\<close>. With a 16-bit
  \<open>ssize_t\<close>, two buffers of 20000 bytes are written completely and the value returned
  is -25536. When \<open>write\<close> takes 0 bytes each time, the inner loop never ends.
\<close>

theorem writev_not_the_sum:
  "writev (ex_posix False 2 False) 1 ex_iov 3 (ex_io 0) =
     Some (- 1, \<lparr>errno = 29, dev = (40, 0), io_calls = [Lseek 1 0 SEEK_CUR (- 1)]\<rparr>)
   \<and> total_len ex_iov 0 3 = 6
   \<and> map_option (list_all ok_write \<circ> new_io (ex_io 0) \<circ> snd)
        (writev (ex_posix True 2 False) 1 ex_iov_big 2 (ex_io 0)) = Some True
   \<and> map_option (sint \<circ> fst) (writev (ex_posix True 2 False) 1 ex_iov_big 2 (ex_io 0)) =
        Some (- 25536)
   \<and> total_len ex_iov_big 0 2 = 40000
   \<and> writev (ex_posix True 0 False) 1 ex_iov 3 (ex_io 0) = None"
proof (intro conjI)
  show "writev (ex_posix False 2 False) 1 ex_iov 3 (ex_io 0) =
     Some (- 1, \<lparr>errno = 29, dev = (40, 0), io_calls = [Lseek 1 0 SEEK_CUR (- 1)]\<rparr>)"
    by (simp add: writev_def call_lseek_def ex_posix_def ex_io_def ERROR_def)
  show "total_len ex_iov 0 3 = 6" "total_len ex_iov_big 0 2 = 40000"
    by (simp_all add: ex_iov_totals)
  have "\<exists>r s'. writev (ex_posix True 2 False) 1 ex_iov_big 2 (ex_io 0) = Some (r, s') \<and>
      list_all ok_write (new_io (ex_io 0) s')"
  proof (rule writev_returns)
    fix buf s0 and rem :: "16 word"
    assume "rem \<noteq> 0"
    from ex_posix_progress [OF this, of True 1 buf s0]
    have p: "0 < sint (fst (os_write (ex_posix True 2 False) 1 buf rem s0))"
      "unat (fst (os_write (ex_posix True 2 False) 1 buf rem s0)) \<le> unat rem"
      by simp_all
    then have "nat (sint (fst (os_write (ex_posix True 2 False) 1 buf rem s0))) \<le> unat rem"
      by (simp add: nat_sint_nonneg)
    with p show "(sint (fst (os_write (ex_posix True 2 False) 1 buf rem s0)) < 0 \<or>
       0 < sint (fst (os_write (ex_posix True 2 False) 1 buf rem s0)) \<and>
       unat (fst (os_write (ex_posix True 2 False) 1 buf rem s0)) \<le> unat rem) \<and>
      ok_write (Write 1 buf (unat rem) (sint (fst (os_write (ex_posix True 2 False) 1 buf rem s0)))
           (errno (snd (os_write (ex_posix True 2 False) 1 buf rem s0))))"
      by simp
  next
    fix off wh q
    show "ok_write (Lseek 1 off wh q)"
      by simp
  qed
  then obtain r s' where
    run: "writev (ex_posix True 2 False) 1 ex_iov_big 2 (ex_io 0) = Some (r, s')"
    and ok: "list_all ok_write (new_io (ex_io 0) s')"
    by blast
  have seek: "fst (os_lseek (ex_posix True 2 False) 1 0 SEEK_CUR (ex_io 0)) \<noteq> - 1"
    by (simp add: ex_posix_def ex_io_def)
  from writev_post [OF run] seek obtain cs where
    log: "new_io (ex_io 0) s' =
        Lseek 1 0 SEEK_CUR (fst (os_lseek (ex_posix True 2 False) 1 0 SEEK_CUR (ex_io 0))) # cs"
    and post: "r = sum_len ex_iov_big 0 (nat 2) \<and> \<not> list_ex failed_write cs
         \<or> r = word_of_int ERROR \<and>
           restored 1 (fst (os_lseek (ex_posix True 2 False) 1 0 SEEK_CUR (ex_io 0))) (errno s') cs"
    by auto
  from ok log have "list_all ok_write cs"
    by simp
  then have "\<not> list_ex failed_write cs"
    by (auto simp add: list_ex_iff list_all_iff ok_not_failed)
  with post restored_failed have "r = sum_len ex_iov_big 0 (nat 2)"
    by blast
  then have "r = 40000"
    by (simp add: sum_len_total ex_iov_totals)
  then have "sint r = - 25536"
    by simp
  then show "map_option (sint \<circ> fst) (writev (ex_posix True 2 False) 1 ex_iov_big 2 (ex_io 0)) =
        Some (- 25536)"
    by (simp add: run)
  from ok show "map_option (list_all ok_write \<circ> new_io (ex_io 0) \<circ> snd)
        (writev (ex_posix True 2 False) 1 ex_iov_big 2 (ex_io 0)) = Some True"
    by (simp add: run)
  have "write_buffer (ex_posix True 0 False) 1 40 (iov_base (ex_iov 0)) (iov_len (ex_iov 0)) 0
      \<lparr>errno = 0, dev = (40, 0), io_calls = [Lseek 1 0 SEEK_CUR 40]\<rparr> = None"
  proof (rule ccontr)
    assume "write_buffer (ex_posix True 0 False) 1 40 (iov_base (ex_iov 0)) (iov_len (ex_iov 0)) 0
      \<lparr>errno = 0, dev = (40, 0), io_calls = [Lseek 1 0 SEEK_CUR 40]\<rparr> \<noteq> None"
    then obtain y where "write_buffer (ex_posix True 0 False) 1 40 (iov_base (ex_iov 0))
      (iov_len (ex_iov 0)) 0 \<lparr>errno = 0, dev = (40, 0), io_calls = [Lseek 1 0 SEEK_CUR 40]\<rparr> = Some y"
      by blast
    from write_buffer_stalls [OF this] show False
      by (simp add: ex_iov_def)
  qed
  then have "writev_loop (ex_posix True 0 False) 1 ex_iov 3 40 0 0
      \<lparr>errno = 0, dev = (40, 0), io_calls = [Lseek 1 0 SEEK_CUR 40]\<rparr> = None"
    by (rule writev_loop_diverges [rotated 2]) (simp_all add: ex_iov_def)
  then show "writev (ex_posix True 0 False) 1 ex_iov 3 (ex_io 0) = None"
    by (simp add: writev_def call_lseek_def ex_posix_def ex_io_def)
qed


lemma ex_posix_live:
  assumes "rem \<noteq> 0"
  shows "sint (fst (os_write (ex_posix True 2 True) fildes buf rem s0)) < 0 \<or>
         0 < sint (fst (os_write (ex_posix True 2 True) fildes buf rem s0)) \<and>
         unat (fst (os_write (ex_posix True 2 True) fildes buf rem s0)) \<le> unat rem"
proof (cases "snd (dev s0) = 0")
  case True
  then show ?thesis
    by (simp add: ex_posix_def)
next
  case False
  from assms have "0 < unat rem"
    by (simp add: unat_gt_0)
  with False have "0 < min (unat rem) (min 2 (snd (dev s0)))"
    "min (unat rem) (min 2 (snd (dev s0))) \<le> unat rem"
    "min (unat rem) (min 2 (snd (dev s0))) \<le> 2"
    by simp_all
  with ex_small_word [of "min (unat rem) (min 2 (snd (dev s0)))"] False show ?thesis
    by (simp add: ex_posix_def Let_def)
qed

lemma ex_full_run:
  "writev (ex_posix True 2 True) 1 ex_iov 3 (ex_io 2) =
     Some (- 1, \<lparr>errno = 28, dev = (40, 0),
                 io_calls = [Lseek 1 0 SEEK_CUR 40, Write 1 100 4 2 0, Write 1 102 2 (- 1) 28,
                             Lseek 1 40 SEEK_SET 40]\<rparr>)"
proof -
  let ?os = "ex_posix True 2 True"
  let ?s1 = "\<lparr>errno = 0, dev = (40::int, 2::nat), io_calls = [Lseek 1 0 SEEK_CUR 40]\<rparr>
      :: (16, int \<times> nat) io_state"
  let ?s2 = "\<lparr>errno = 0, dev = (42::int, 0::nat),
      io_calls = [Lseek 1 0 SEEK_CUR 40, Write 1 100 4 2 0]\<rparr> :: (16, int \<times> nat) io_state"
  let ?s3 = "\<lparr>errno = 28, dev = (40::int, 0::nat),
      io_calls = [Lseek 1 0 SEEK_CUR 40, Write 1 100 4 2 0, Write 1 102 2 (- 1) 28,
                  Lseek 1 40 SEEK_SET 40]\<rparr> :: (16, int \<times> nat) io_state"
  have second: "write_buffer ?os 1 40 102 2 2 ?s2 = Some (Inl (- 1), ?s3)"
    by (subst write_buffer.simps)
      (simp add: call_write_def call_lseek_def ex_posix_def Let_def get_errno_def
        set_errno_io_def ERROR_def)
  have first: "write_buffer ?os 1 40 100 4 0 ?s1 = write_buffer ?os 1 40 102 2 2 ?s2"
    by (subst write_buffer.simps) (simp add: call_write_def ex_posix_def Let_def)
  have "write_buffer ?os 1 40 (iov_base (ex_iov 0)) (iov_len (ex_iov 0)) 0 ?s1 =
      Some (Inl (- 1), ?s3)"
    by (simp add: ex_iov_def first second)
  then have "writev_loop ?os 1 ex_iov 3 40 0 0 ?s1 = Some (- 1, ?s3)"
    by (rule writev_loop_failed [rotated 2]) (simp_all add: ex_iov_def)
  then show ?thesis
    by (simp add: writev_def call_lseek_def ex_posix_def ex_io_def)
qed



end
